theory Spec2Isabelle
  imports
    Main
    "HOL-Library.AList"
    "HOL-Library.Sublist"
    "HOL-Library.Char_ord"
    "HOL-Library.List_Lexorder"
begin

section \<open>Go values used by the storage cluster controller\<close>

text \<open>
  A Go \<^verbatim>\<open>string\<close> is a byte sequence, here a \<^typ>\<open>string\<close>; the order of
  \<^verbatim>\<open>sort.Strings\<close> and of \<^verbatim>\<open><\<close> on strings is the bytewise lexicographic
  order, which is the order of \<^typ>\<open>char list\<close> with the two order theories imported
  above.

  A Go slice \<^verbatim>\<open>[]string\<close> is a \<^typ>\<open>string list option\<close>: \<open>None\<close> is the
  \<^verbatim>\<open>nil\<close> slice, \<open>Some []\<close> the empty slice that is not nil.

  A Go map is an association list with one entry for each key. The order of the
  entries is the order in which \<^verbatim>\<open>range\<close> visits the map in the run that is
  modelled: Go leaves that order open, so a statement about a map is made for every
  order of its entries. A key assigned for the first time goes to the end.
\<close>

type_synonym slice = "string list option"

definition len :: "slice \<Rightarrow> nat" where
  "len s = (case s of None \<Rightarrow> 0 | Some xs \<Rightarrow> length xs)"

definition elems :: "slice \<Rightarrow> string list" where
  "elems s = (case s of None \<Rightarrow> [] | Some xs \<Rightarrow> xs)"

text \<open>\<^verbatim>\<open>sort.Strings(s)\<close> sorts the slice in place; on \<^verbatim>\<open>nil\<close> it does nothing.\<close>

definition sortStrings :: "slice \<Rightarrow> slice" where
  "sortStrings s = map_option sort s"

text \<open>\<^verbatim>\<open>strings.Contains(s, substr)\<close>.\<close>

fun strContains :: "string \<Rightarrow> string \<Rightarrow> bool" where
  "strContains [] substr = (substr = [])"
| "strContains (c # s) substr = (prefix substr (c # s) \<or> strContains s substr)"

text \<open>The decimal digits of \<^verbatim>\<open>fmt.Sprintf("%d", j)\<close> for \<open>j \<ge> 0\<close>.\<close>

definition digit :: "nat \<Rightarrow> char" where
  "digit d = char_of (48 + d)"

function formatNat :: "nat \<Rightarrow> string" where
  "formatNat n = (if n < 10 then [digit n] else formatNat (n div 10) @ [digit (n mod 10)])"
  by pat_completeness auto
termination
  by (relation "measure id") auto

datatype error =
    ClientError string
  | NotEnoughNodes int int
  | Wrapped string error
  | PanicIndexOutOfRange
  | PanicNilMap
  | PanicNilPointer

fun isPanic :: "error \<Rightarrow> bool" where
  "isPanic PanicIndexOutOfRange = True"
| "isPanic PanicNilMap = True"
| "isPanic PanicNilPointer = True"
| "isPanic _ = False"

text \<open>
  \<^verbatim>\<open>fmt.Errorf(msg + ": %v", err)\<close> after \<^verbatim>\<open>if err != nil\<close>. A panic of the callee
  is not an error value: it unwinds through the caller as it is.
\<close>

definition wrapError :: "string \<Rightarrow> error \<Rightarrow> error" where
  "wrapError msg e = (if isPanic e then e else Wrapped msg e)"

section \<open>The data model\<close>

text \<open>
  \<^verbatim>\<open>ocsv1.NodeTopologyMap\<close> holds one field, \<^verbatim>\<open>Labels\<close>, a map from a label key to
  \<^verbatim>\<open>TopologyLabelValues\<close>, a string slice; the type stands for that field. The
  controller keeps two such maps: the topology map of the status (label key to label
  values) and the rack membership map of \<^verbatim>\<open>ensureNodeRacks\<close> (rack name to node
  names).
\<close>

type_synonym TopologyLabelValues = slice
type_synonym NodeTopologyMap = "(string \<times> TopologyLabelValues) list"

text \<open>The index expression \<^verbatim>\<open>m.Labels[key]\<close>: nil for a key that is absent.\<close>

definition LabelsAt :: "NodeTopologyMap \<Rightarrow> string \<Rightarrow> TopologyLabelValues" where
  "LabelsAt m key = (case map_of m key of None \<Rightarrow> None | Some v \<Rightarrow> v)"

text \<open>
  Modelled from the spec: \<^verbatim>\<open>NewNodeTopologyMap\<close>, whose source is not among the files
  ("created empty").
\<close>

definition NewNodeTopologyMap :: NodeTopologyMap where
  "NewNodeTopologyMap = []"

text \<open>
  Modelled from the spec: the method \<^verbatim>\<open>Contains(key, value)\<close> of the topology map,
  whose source is not among the files ("membership checks").
\<close>

definition Contains :: "NodeTopologyMap \<Rightarrow> string \<Rightarrow> string \<Rightarrow> bool" where
  "Contains m key v = (v \<in> set (elems (LabelsAt m key)))"

text \<open>
  Modelled from the spec: the method \<^verbatim>\<open>Add(key, value)\<close> of the topology map, whose
  source is not among the files ("ensures the value set under key contains value; no-op
  if already present"). Every call in the controller is made for a value that is not
  under the key yet, where the value is appended.
\<close>

definition Add :: "NodeTopologyMap \<Rightarrow> string \<Rightarrow> string \<Rightarrow> NodeTopologyMap" where
  "Add m key v =
     (if Contains m key v then m
      else AList.update key (Some (elems (LabelsAt m key) @ [v])) m)"

text \<open>
  Modelled from the spec: the method \<^verbatim>\<open>GetKeyValues\<close> of the topology map, whose
  source is not among the files ("scans all keys, finds the one whose name contains the
  requested domain-type substring, returns that key and its value set as a sorted
  sequence. If no key matches, returns an empty key and empty sequence"). The scan
  takes the first key that matches, in the order of this run.
\<close>

definition GetKeyValues :: "NodeTopologyMap \<Rightarrow> string \<Rightarrow> string \<times> string list" where
  "GetKeyValues m topologyKey =
     (case find (\<lambda>(label, labelValues). strContains label topologyKey) m of
        None \<Rightarrow> ('''', [])
      | Some (label, labelValues) \<Rightarrow> (label, sort (elems labelValues)))"

text \<open>
  \<^verbatim>\<open>corev1.Node\<close>: its name and its labels, a map from label key to label value
  (\<open>None\<close> is the nil map of a node without labels).
\<close>

record Node =
  Name :: string
  Labels :: "(string \<times> string) list option"

definition nodeLabels :: "Node \<Rightarrow> (string \<times> string) list" where
  "nodeLabels node = (case Labels node of None \<Rightarrow> [] | Some labels \<Rightarrow> labels)"

record failureDomain =
  Type :: string
  Key :: string
  Values :: "string list"

text \<open>
  \<^verbatim>\<open>ocsv1.StorageCluster\<close>, with the fields of \<^verbatim>\<open>sc.Spec\<close> and \<^verbatim>\<open>sc.Status\<close> that
  this file reads. \<open>Status_NodeTopologies\<close> is \<open>None\<close> when
  \<^verbatim>\<open>sc.Status.NodeTopologies\<close> or its \<^verbatim>\<open>Labels\<close> is nil: the source tests the two
  together wherever it tests one.
\<close>

record StorageCluster =
  Spec_FlexibleScaling :: bool
  Spec_Arbiter_Enable :: bool
  Spec_MinimumNodes :: int
  Status_FailureDomain :: string
  Status_NodeTopologies :: "NodeTopologyMap option"

text \<open>
  Modelled from the spec: \<^verbatim>\<open>arbiterEnabled\<close> and \<^verbatim>\<open>getMinimumNodes\<close>, whose sources
  are not among the files (the configuration inputs "ArbiterEnabled: bool" and
  "MinimumNodes: int").
\<close>

definition arbiterEnabled :: "StorageCluster \<Rightarrow> bool" where
  "arbiterEnabled sc = Spec_Arbiter_Enable sc"

definition getMinimumNodes :: "StorageCluster \<Rightarrow> int" where
  "getMinimumNodes sc = Spec_MinimumNodes sc"

text \<open>
  The constants of the package that are declared elsewhere, taken as parameters:
  the list \<^verbatim>\<open>validTopologyLabelKeys\<close> and \<^verbatim>\<open>defaults.RackTopologyKey\<close>.
\<close>

record defaults =
  validTopologyLabelKeys :: "string list"
  RackTopologyKey :: string

text \<open>
  The cluster API behind \<^verbatim>\<open>r.Client\<close>: \<open>List\<close> is the outcome of building the
  selector and listing the nodes in \<^verbatim>\<open>getStorageClusterEligibleNodes\<close>, \<open>Patch\<close> the
  outcome of \<^verbatim>\<open>generateStrategicPatch\<close> and \<^verbatim>\<open>r.Client.Patch\<close> for a node and its
  relabelled copy.
\<close>

record Client =
  List :: "error + Node list"
  Patch :: "Node \<Rightarrow> Node \<Rightarrow> error option"

text \<open>
  The state of the reconciler that the functions change: the field \<^verbatim>\<open>nodeCount\<close>, and
  the patches sent through the client so far (node name and rack label value).
\<close>

record StorageClusterReconciler =
  nodeCount :: int
  patched :: "(string \<times> string) list"

section \<open>\<^verbatim>\<open>controllers/util/strings.go\<close>\<close>

text \<open>
  The loop \<^verbatim>\<open>for index, value := range a\<close> of \<^verbatim>\<open>CompareStringSlices\<close>, from
  position \<open>index\<close> on. It reads \<^verbatim>\<open>b[index]\<close>, which is in range where the loop
  runs: the lengths have been compared before.
\<close>

fun compareFrom :: "string list \<Rightarrow> string list \<Rightarrow> nat \<Rightarrow> bool" where
  "compareFrom [] b index = True"
| "compareFrom (v # rest) b index =
     (if v \<noteq> b ! index then False else compareFrom rest b (Suc index))"

definition CompareStringSlices :: "slice \<Rightarrow> slice \<Rightarrow> bool" where
  "CompareStringSlices a b =
     (if a = None \<and> b = None then True
      else if \<not> (a \<noteq> None \<and> b \<noteq> None) then False
      else if len a \<noteq> len b then False
      else compareFrom (elems a) (elems b) 0)"

section \<open>The storage cluster controller: node topology\<close>

definition getStorageClusterEligibleNodes :: "Client \<Rightarrow> StorageCluster \<Rightarrow> error + Node list" where
  "getStorageClusterEligibleNodes cl sc = List cl"

subsection \<open>\<^verbatim>\<open>determinePlacementRack\<close>\<close>

text \<open>
  The inner loop \<^verbatim>\<open>for j := 0; j <= i; j++\<close>: the first name \<^verbatim>\<open>rack<j>\<close> that is not
  a key yet becomes a key with an empty slice.
\<close>

function newRackLoop :: "NodeTopologyMap \<Rightarrow> nat \<Rightarrow> nat \<Rightarrow> NodeTopologyMap" where
  "newRackLoop labels i j =
     (if j \<le> i then
        (let newRack = ''rack'' @ formatNat j in
         if map_of labels newRack = None then AList.update newRack (Some []) labels
         else newRackLoop labels i (Suc j))
      else labels)"
  by pat_completeness auto
termination
  by (relation "measure (\<lambda>(labels, i, j). Suc i - j)") auto

text \<open>The outer loop \<^verbatim>\<open>for i := len(nodeRacks.Labels); i < minRacks; i++\<close>.\<close>

function minRacksLoop :: "NodeTopologyMap \<Rightarrow> nat \<Rightarrow> int \<Rightarrow> NodeTopologyMap" where
  "minRacksLoop labels i minRacks =
     (if int i < minRacks then minRacksLoop (newRackLoop labels i 0) (Suc i) minRacks
      else labels)"
  by pat_completeness auto
termination
  by (relation "measure (\<lambda>(labels, i, minRacks). nat (minRacks - int i))") auto

declare formatNat.simps [simp del] newRackLoop.simps [simp del] minRacksLoop.simps [simp del]

text \<open>
  The test on a label in the zone loops: some valid topology key occurs in the label,
  and so does \<^verbatim>\<open>"zone"\<close>.
\<close>

definition zoneLabel :: "string list \<Rightarrow> string \<Rightarrow> bool" where
  "zoneLabel validKeys label =
     list_ex (\<lambda>key. strContains label key \<and> strContains label ''zone'') validKeys"

text \<open>
  The loop over \<^verbatim>\<open>node.Labels\<close> that sets \<^verbatim>\<open>targetAZ\<close>: a zone label assigns its
  value, and the loop stops once \<^verbatim>\<open>targetAZ\<close> is not empty.
\<close>

fun targetAZLoop :: "string list \<Rightarrow> (string \<times> string) list \<Rightarrow> string \<Rightarrow> string" where
  "targetAZLoop validKeys [] targetAZ = targetAZ"
| "targetAZLoop validKeys ((label, v) # rest) targetAZ =
     (let targetAZ' = (if zoneLabel validKeys label then v else targetAZ)
      in if targetAZ' \<noteq> '''' then targetAZ' else targetAZLoop validKeys rest targetAZ')"

text \<open>
  The loops that set \<^verbatim>\<open>validRack\<close>: some node name of the rack is the name of a node
  of the list, and the first node of that name carries a zone label whose value is
  \<^verbatim>\<open>targetAZ\<close>.
\<close>

definition memberInZone :: "string list \<Rightarrow> Node list \<Rightarrow> string \<Rightarrow> string \<Rightarrow> bool" where
  "memberInZone validKeys nodes targetAZ nodeName =
     (case find (\<lambda>n. Name n = nodeName) nodes of
        None \<Rightarrow> False
      | Some n \<Rightarrow>
          list_ex (\<lambda>(label, v).
            list_ex (\<lambda>key. strContains label key \<and> strContains label ''zone'' \<and> v = targetAZ)
              validKeys) (nodeLabels n))"

definition validRack :: "string list \<Rightarrow> Node list \<Rightarrow> string \<Rightarrow> string list \<Rightarrow> bool" where
  "validRack validKeys nodes targetAZ nodeNames =
     list_ex (memberInZone validKeys nodes targetAZ) nodeNames"

text \<open>The candidate list \<^verbatim>\<open>rackList\<close> before it is sorted.\<close>

definition candidateRacks ::
  "string list \<Rightarrow> Node list \<Rightarrow> string \<Rightarrow> NodeTopologyMap \<Rightarrow> string list" where
  "candidateRacks validKeys nodes targetAZ nodeRacks =
     (if length targetAZ > 0 then
        filter (\<lambda>rack.
          let nodeNames = LabelsAt nodeRacks rack in
          len nodeNames = 0 \<or> validRack validKeys nodes targetAZ (elems nodeNames))
          (map fst nodeRacks)
      else map fst nodeRacks)"

text \<open>The final scan \<^verbatim>\<open>for _, r := range rackList\<close> for a rack with fewer nodes.\<close>

fun fewestLoop :: "NodeTopologyMap \<Rightarrow> string \<Rightarrow> string list \<Rightarrow> string" where
  "fewestLoop nodeRacks rack [] = rack"
| "fewestLoop nodeRacks rack (r # rest) =
     fewestLoop nodeRacks
       (if len (LabelsAt nodeRacks r) < len (LabelsAt nodeRacks rack) then r else rack) rest"

text \<open>
  The first block of \<^verbatim>\<open>determinePlacementRack\<close>: fewer keys than \<^verbatim>\<open>minRacks\<close>
  in the rack membership map make it define new racks.
\<close>

definition defineRacks :: "NodeTopologyMap \<Rightarrow> int \<Rightarrow> NodeTopologyMap" where
  "defineRacks nodeRacks minRacks =
     (if int (length nodeRacks) < minRacks
      then minRacksLoop nodeRacks (length nodeRacks) minRacks
      else nodeRacks)"

text \<open>The value of \<^verbatim>\<open>targetAZ\<close> after its loop, from the empty string.\<close>

definition targetAZ :: "string list \<Rightarrow> Node \<Rightarrow> string" where
  "targetAZ validKeys node = targetAZLoop validKeys (nodeLabels node) []"

text \<open>
  \<^verbatim>\<open>determinePlacementRack\<close> returns the rack, and leaves the racks it has defined in
  the rack membership map, which is the second component. Reading \<^verbatim>\<open>rackList[0]\<close> of
  an empty list panics.
\<close>

definition determinePlacementRack ::
  "string list \<Rightarrow> Node list \<Rightarrow> Node \<Rightarrow> int \<Rightarrow> NodeTopologyMap \<Rightarrow> (error + string) \<times> NodeTopologyMap" where
  "determinePlacementRack validKeys nodes node minRacks nodeRacks0 =
     (let nodeRacks = defineRacks nodeRacks0 minRacks;
          rackList = sort (candidateRacks validKeys nodes (targetAZ validKeys node) nodeRacks)
      in case rackList of
           [] \<Rightarrow> (Inl PanicIndexOutOfRange, nodeRacks)
         | rack # _ \<Rightarrow> (Inr (fewestLoop nodeRacks rack rackList), nodeRacks))"

subsection \<open>\<^verbatim>\<open>ensureNodeRacks\<close>\<close>

text \<open>
  The first loop over the nodes: every label of a node whose key contains
  \<^verbatim>\<open>"rack"\<close> puts the node under the rack that is the label's value.
\<close>

fun rackLabels :: "NodeTopologyMap \<Rightarrow> string \<Rightarrow> (string \<times> string) list \<Rightarrow> NodeTopologyMap" where
  "rackLabels nodeRacks name [] = nodeRacks"
| "rackLabels nodeRacks name ((label, v) # rest) =
     rackLabels
       (if strContains label ''rack'' then
          (if \<not> Contains nodeRacks v name then Add nodeRacks v name else nodeRacks)
        else nodeRacks) name rest"

fun existingRacks :: "NodeTopologyMap \<Rightarrow> Node list \<Rightarrow> NodeTopologyMap" where
  "existingRacks nodeRacks [] = nodeRacks"
| "existingRacks nodeRacks (node # rest) =
     existingRacks (rackLabels nodeRacks (Name node) (nodeLabels node)) rest"

text \<open>The loops that set \<^verbatim>\<open>hasRack\<close> for a node.\<close>

definition hasRack :: "NodeTopologyMap \<Rightarrow> Node \<Rightarrow> bool" where
  "hasRack nodeRacks node =
     list_ex (\<lambda>(rack, nodeNames). list_ex (\<lambda>nodeName. nodeName = Name node) (elems nodeNames))
       nodeRacks"

text \<open>
  What the second loop changes: the local rack membership map \<^verbatim>\<open>nodeRacks\<close>, the
  topology map behind the pointer \<^verbatim>\<open>topologyMap\<close>, and the reconciler.
\<close>

record ensureState =
  st_nodeRacks :: NodeTopologyMap
  st_topologyMap :: NodeTopologyMap
  st_r :: StorageClusterReconciler

text \<open>
  The second loop over the nodes, from the nodes \<open>todo\<close> on. A node without a rack is
  placed, recorded in both maps, and patched; an error of the patch ends the loop, and
  so does a panic: of \<^verbatim>\<open>determinePlacementRack\<close>, or of the assignment
  \<^verbatim>\<open>newNode.Labels[defaults.RackTopologyKey] = rack\<close> into the nil map of a node
  without labels.
\<close>

fun placeNodes ::
  "defaults \<Rightarrow> Client \<Rightarrow> Node list \<Rightarrow> int \<Rightarrow> Node list \<Rightarrow> ensureState \<Rightarrow> error option \<times> ensureState" where
  "placeNodes d cl nodes minRacks [] st = (None, st)"
| "placeNodes d cl nodes minRacks (node # todo) st =
     (if hasRack (st_nodeRacks st) node then placeNodes d cl nodes minRacks todo st
      else
        (case determinePlacementRack (validTopologyLabelKeys d) nodes node minRacks (st_nodeRacks st) of
           (Inl e, nodeRacks1) \<Rightarrow> (Some e, st\<lparr>st_nodeRacks := nodeRacks1\<rparr>)
         | (Inr rack, nodeRacks1) \<Rightarrow>
             (let st1 = st\<lparr>
                    st_nodeRacks := Add nodeRacks1 rack (Name node),
                    st_topologyMap :=
                      (if \<not> Contains (st_topologyMap st) (RackTopologyKey d) rack
                       then Add (st_topologyMap st) (RackTopologyKey d) rack
                       else st_topologyMap st)\<rparr>
              in case Labels node of
                   None \<Rightarrow> (Some PanicNilMap, st1)
                 | Some labels \<Rightarrow>
                     (let newNode = node\<lparr>Labels := Some (AList.update (RackTopologyKey d) rack labels)\<rparr>
                      in case Patch cl node newNode of
                           Some e \<Rightarrow> (Some e, st1)
                         | None \<Rightarrow>
                             placeNodes d cl nodes minRacks todo
                               (st1\<lparr>st_r := (st_r st1)\<lparr>patched :=
                                  patched (st_r st1) @ [(Name node, rack)]\<rparr>\<rparr>)))))"

definition ensureNodeRacks ::
  "defaults \<Rightarrow> Client \<Rightarrow> StorageClusterReconciler \<Rightarrow> Node list \<Rightarrow> int \<Rightarrow> NodeTopologyMap \<Rightarrow>
   error option \<times> ensureState" where
  "ensureNodeRacks d cl r nodes minRacks topologyMap =
     placeNodes d cl nodes minRacks nodes
       \<lparr>st_nodeRacks = existingRacks NewNodeTopologyMap nodes,
        st_topologyMap = topologyMap,
        st_r = r\<rparr>"

subsection \<open>\<^verbatim>\<open>reconcileNodeTopologyMap\<close>\<close>

fun reconcileKeys :: "NodeTopologyMap \<Rightarrow> string \<Rightarrow> string \<Rightarrow> string list \<Rightarrow> NodeTopologyMap" where
  "reconcileKeys topologyMap label v [] = topologyMap"
| "reconcileKeys topologyMap label v (key # rest) =
     reconcileKeys
       (if strContains label key then
          (if \<not> Contains topologyMap label v then Add topologyMap label v else topologyMap)
        else topologyMap) label v rest"

fun reconcileLabels ::
  "string list \<Rightarrow> NodeTopologyMap \<Rightarrow> (string \<times> string) list \<Rightarrow> NodeTopologyMap" where
  "reconcileLabels validKeys topologyMap [] = topologyMap"
| "reconcileLabels validKeys topologyMap ((label, v) # rest) =
     reconcileLabels validKeys (reconcileKeys topologyMap label v validKeys) rest"

fun reconcileNodes :: "string list \<Rightarrow> NodeTopologyMap \<Rightarrow> Node list \<Rightarrow> NodeTopologyMap" where
  "reconcileNodes validKeys topologyMap [] = topologyMap"
| "reconcileNodes validKeys topologyMap (node # rest) =
     reconcileNodes validKeys (reconcileLabels validKeys topologyMap (nodeLabels node)) rest"

definition reconcileNodeTopologyMap ::
  "defaults \<Rightarrow> StorageClusterReconciler \<Rightarrow> StorageCluster \<Rightarrow> int \<Rightarrow> Node list \<Rightarrow>
   error option \<times> StorageClusterReconciler \<times> StorageCluster" where
  "reconcileNodeTopologyMap d r sc minNodes nodes =
     (let topologyMap =
            (case Status_NodeTopologies sc of None \<Rightarrow> NewNodeTopologyMap | Some m \<Rightarrow> m);
          sc1 = sc\<lparr>Status_NodeTopologies := Some topologyMap\<rparr>;
          r1 = r\<lparr>nodeCount := int (length nodes)\<rparr>
      in if nodeCount r1 < minNodes
         then (Some (NotEnoughNodes minNodes (nodeCount r1)), r1, sc1)
         else (None, r1,
               sc1\<lparr>Status_NodeTopologies :=
                 Some (reconcileNodes (validTopologyLabelKeys d) topologyMap nodes)\<rparr>))"

subsection \<open>\<^verbatim>\<open>filterDeprecatedLabels\<close>\<close>

text \<open>\<^verbatim>\<open>sort.Strings(topologyMap.Labels[key])\<close>: the slice under the key, sorted in place.\<close>

definition sortStringsAt :: "NodeTopologyMap \<Rightarrow> string \<Rightarrow> NodeTopologyMap" where
  "sortStringsAt m key = map (\<lambda>(k, v). if k = key then (k, sortStrings v) else (k, v)) m"

definition filterDeprecatedLabels :: "NodeTopologyMap \<Rightarrow> NodeTopologyMap" where
  "filterDeprecatedLabels topologyMap =
     (let m1 = sortStringsAt topologyMap ''failure-domain.beta.kubernetes.io/zone'';
          m2 = sortStringsAt m1 ''failure-domain.kubernetes.io/zone'';
          m3 = sortStringsAt m2 ''topology.kubernetes.io/zone'';
          m4 = sortStringsAt m3 ''failure-domain.beta.kubernetes.io/region'';
          m5 = sortStringsAt m4 ''failure-domain.kubernetes.io/region'';
          m6 = sortStringsAt m5 ''topology.kubernetes.io/region'';
          m7 = (if CompareStringSlices (LabelsAt m6 ''failure-domain.beta.kubernetes.io/zone'')
                     (LabelsAt m6 ''topology.kubernetes.io/zone'')
                then AList.delete ''failure-domain.beta.kubernetes.io/zone'' m6 else m6);
          m8 = (if CompareStringSlices (LabelsAt m7 ''failure-domain.beta.kubernetes.io/region'')
                     (LabelsAt m7 ''topology.kubernetes.io/region'')
                then AList.delete ''failure-domain.beta.kubernetes.io/region'' m7 else m7);
          m9 = (if CompareStringSlices (LabelsAt m8 ''failure-domain.kubernetes.io/zone'')
                     (LabelsAt m8 ''topology.kubernetes.io/zone'')
                then AList.delete ''failure-domain.kubernetes.io/zone'' m8 else m8)
      in if CompareStringSlices (LabelsAt m9 ''failure-domain.kubernetes.io/region'')
              (LabelsAt m9 ''topology.kubernetes.io/region'')
         then AList.delete ''failure-domain.kubernetes.io/region'' m9 else m9)"

subsection \<open>\<^verbatim>\<open>determineFailureDomain\<close>\<close>

text \<open>
  The loop over the topology map that looks for a zone label with enough values: true
  when it reaches its \<^verbatim>\<open>return\<close>.
\<close>

fun zoneScan :: "bool \<Rightarrow> NodeTopologyMap \<Rightarrow> bool" where
  "zoneScan arbiter [] = False"
| "zoneScan arbiter ((label, labelValues) # rest) =
     (if strContains label ''zone'' \<and>
         ((len labelValues \<ge> 2 \<and> arbiter) \<or> len labelValues \<ge> 3)
      then True
      else zoneScan arbiter rest)"

text \<open>The failure domain of a type, with the key and values that the topology map gives.\<close>

definition domainOf :: "NodeTopologyMap \<Rightarrow> string \<Rightarrow> failureDomain" where
  "domainOf topologyMap t =
     (case GetKeyValues topologyMap t of (k, vs) \<Rightarrow> \<lparr>Type = t, Key = k, Values = vs\<rparr>)"

text \<open>
  \<^verbatim>\<open>determineFailureDomain\<close> returns the failure domain or the error, the reconciler
  and the storage cluster, whose topology map it changes in place. The nil pointer
  that \<^verbatim>\<open>filterDeprecatedLabels\<close> would read cannot occur after the reconciliation.
\<close>

definition determineFailureDomain ::
  "defaults \<Rightarrow> Client \<Rightarrow> StorageClusterReconciler \<Rightarrow> StorageCluster \<Rightarrow>
   (error + failureDomain) \<times> StorageClusterReconciler \<times> StorageCluster" where
  "determineFailureDomain d cl r sc =
     (let minNodes = getMinimumNodes sc in
      case getStorageClusterEligibleNodes cl sc of
        Inl e \<Rightarrow> (Inl (wrapError ''Failed to get storage cluster eligible nodes'' e), r, sc)
      | Inr nodes \<Rightarrow>
          (case (if Status_NodeTopologies sc = None
                 then reconcileNodeTopologyMap d r sc minNodes nodes
                 else (None, r, sc)) of
             (Some e, r1, sc1) \<Rightarrow>
               (Inl (wrapError ''Failed to reconcile node topology'' e), r1, sc1)
           | (None, r1, sc1) \<Rightarrow>
               (case Status_NodeTopologies sc1 of
                  None \<Rightarrow> (Inl PanicNilPointer, r1, sc1)
                | Some topologyMap1 \<Rightarrow>
                    (let topologyMap = filterDeprecatedLabels topologyMap1;
                         sc2 = sc1\<lparr>Status_NodeTopologies := Some topologyMap\<rparr>
                     in if Status_FailureDomain sc2 \<noteq> '''' then
                          (Inr (domainOf topologyMap (Status_FailureDomain sc2)), r1, sc2)
                        else if Spec_FlexibleScaling sc2 then
                          (Inr (domainOf topologyMap ''host''), r1, sc2)
                        else if zoneScan (arbiterEnabled sc2) topologyMap then
                          (Inr (domainOf topologyMap ''zone''), r1, sc2)
                        else
                          (case ensureNodeRacks d cl r1 nodes minNodes topologyMap of
                             (Some e, st) \<Rightarrow>
                               (Inl (wrapError ''Unable to assign rack labels'' e), st_r st,
                                sc2\<lparr>Status_NodeTopologies := Some (st_topologyMap st)\<rparr>)
                           | (None, st) \<Rightarrow>
                               (Inr (domainOf (st_topologyMap st) ''rack''), st_r st,
                                sc2\<lparr>Status_NodeTopologies := Some (st_topologyMap st)\<rparr>))))))"

section \<open>Notions of the specification\<close>

text \<open>
  The balance property of the rack membership map: no rack has more than one member
  more than another, that is, the largest and the smallest rack differ by at most one.
\<close>

definition balanced :: "NodeTopologyMap \<Rightarrow> bool" where
  "balanced nodeRacks =
     list_all (\<lambda>r1. list_all (\<lambda>r2.
         len (LabelsAt nodeRacks r1) \<le> len (LabelsAt nodeRacks r2) + 1) (map fst nodeRacks))
       (map fst nodeRacks)"

text \<open>
  No rack of the rack membership map holds two nodes of the list whose zones are known
  and differ. The zone of a node is its \<^verbatim>\<open>targetAZ\<close>, empty when no zone is known.
\<close>

definition zoneConsistent :: "string list \<Rightarrow> Node list \<Rightarrow> NodeTopologyMap \<Rightarrow> bool" where
  "zoneConsistent validKeys nodes nodeRacks =
     list_all (\<lambda>rack. list_all (\<lambda>nx. list_all (\<lambda>ny.
         Name nx \<in> set (elems (LabelsAt nodeRacks rack)) \<longrightarrow>
         Name ny \<in> set (elems (LabelsAt nodeRacks rack)) \<longrightarrow>
         targetAZ validKeys nx \<noteq> '''' \<longrightarrow> targetAZ validKeys ny \<noteq> '''' \<longrightarrow>
         targetAZ validKeys nx = targetAZ validKeys ny) nodes) nodes)
       (map fst nodeRacks)"

text \<open>
  No zone constraint restricts the candidate racks in the second loop of
  \<^verbatim>\<open>ensureNodeRacks\<close>, run over the nodes \<open>todo\<close> from the rack membership map
  \<open>nodeRacks\<close>: whenever a node is placed, every rack of the map is a candidate.
\<close>

fun unrestricted :: "string list \<Rightarrow> Node list \<Rightarrow> int \<Rightarrow> Node list \<Rightarrow> NodeTopologyMap \<Rightarrow> bool" where
  "unrestricted validKeys nodes minRacks [] nodeRacks = True"
| "unrestricted validKeys nodes minRacks (node # todo) nodeRacks =
     (if hasRack nodeRacks node then unrestricted validKeys nodes minRacks todo nodeRacks
      else
        list_all (\<lambda>rack. rack \<in> set (candidateRacks validKeys nodes (targetAZ validKeys node)
                      (defineRacks nodeRacks minRacks)))
          (map fst (defineRacks nodeRacks minRacks)) \<and>
        (case determinePlacementRack validKeys nodes node minRacks nodeRacks of
           (Inl e, nodeRacks1) \<Rightarrow> True
         | (Inr rack, nodeRacks1) \<Rightarrow>
             unrestricted validKeys nodes minRacks todo (Add nodeRacks1 rack (Name node))))"

section \<open>Properties of \<^verbatim>\<open>CompareStringSlices\<close>\<close>

lemma compareFrom_iff:
  "compareFrom a b k \<longleftrightarrow> (\<forall>i<length a. a ! i = b ! (k + i))"
proof (induction a arbitrary: k)
  case Nil
  show ?case by simp
next
  case (Cons v rest)
  have "(\<forall>i<Suc (length rest). (v # rest) ! i = b ! (k + i)) \<longleftrightarrow>
        v = b ! k \<and> (\<forall>i<length rest. rest ! i = b ! (Suc k + i))"
    by (simp add: All_less_Suc2)
  with Cons.IH [of "Suc k"] show ?case by simp
qed

text \<open>
  C10. \<^verbatim>\<open>CompareStringSlices\<close> returns true exactly when both arguments are nil, or
  both are not nil, have the same length and hold equal elements at every index. A nil
  slice and an empty slice that is not nil, both of length zero, are reported as
  unequal, whichever comes first.
\<close>

theorem CompareStringSlices_spec:
  "(CompareStringSlices a b \<longleftrightarrow>
      (a = None \<and> b = None) \<or>
      (\<exists>xs ys. a = Some xs \<and> b = Some ys \<and> length xs = length ys \<and>
         (\<forall>i<length xs. xs ! i = ys ! i))) \<and>
   \<not> CompareStringSlices None (Some []) \<and>
   \<not> CompareStringSlices (Some []) None"
  by (cases a; cases b) (simp_all add: CompareStringSlices_def len_def elems_def compareFrom_iff)

theorem CompareStringSlices_spec_witness:
  "CompareStringSlices (Some [''a'', ''b'']) (Some [''a'', ''b'']) \<and>
   \<not> CompareStringSlices (Some [''a'', ''b'']) (Some [''a'', ''c'']) \<and>
   \<not> CompareStringSlices None (Some [])"
  using CompareStringSlices_spec [of "Some [''a'', ''b'']" "Some [''a'', ''b'']"]
    CompareStringSlices_spec [of "Some [''a'', ''b'']" "Some [''a'', ''c'']"]
  by (simp add: All_less_Suc2)

section \<open>Properties of \<^verbatim>\<open>determinePlacementRack\<close>\<close>

lemma fewestLoop_min:
  "len (LabelsAt m (fewestLoop m rack rs)) \<le> len (LabelsAt m rack) \<and>
   (\<forall>r\<in>set rs. len (LabelsAt m (fewestLoop m rack rs)) \<le> len (LabelsAt m r)) \<and>
   (fewestLoop m rack rs = rack \<or>
    (fewestLoop m rack rs \<in> set rs \<and>
     len (LabelsAt m (fewestLoop m rack rs)) < len (LabelsAt m rack)))"
proof (induction rs arbitrary: rack)
  case Nil
  show ?case by simp
next
  case (Cons x rs)
  let ?rack' = "if len (LabelsAt m x) < len (LabelsAt m rack) then x else rack"
  from Cons.IH [of ?rack'] show ?case
    by (auto split: if_splits)
qed

lemma fewestLoop_first:
  "sorted rs \<Longrightarrow> fewestLoop m rack rs \<noteq> rack \<Longrightarrow> r \<in> set rs \<Longrightarrow>
   len (LabelsAt m r) = len (LabelsAt m (fewestLoop m rack rs)) \<Longrightarrow>
   fewestLoop m rack rs \<le> r"
proof (induction rs arbitrary: rack)
  case Nil
  then show ?case by simp
next
  case (Cons x rs)
  let ?rack' = "if len (LabelsAt m x) < len (LabelsAt m rack) then x else rack"
  let ?res = "fewestLoop m ?rack' rs"
  have res: "fewestLoop m rack (x # rs) = ?res" by simp
  show ?case
  proof (cases "?res = ?rack'")
    case True
    with Cons.prems(2) res have "?rack' = x" by (auto split: if_splits)
    with True res Cons.prems(1,3) show ?thesis by auto
  next
    case False
    from fewestLoop_min [of m ?rack' rs] False
    have lt: "len (LabelsAt m ?res) < len (LabelsAt m ?rack')" by blast
    have "r \<noteq> x"
    proof
      assume "r = x"
      with Cons.prems(4) res have "len (LabelsAt m x) = len (LabelsAt m ?res)" by simp
      with lt show False by (auto split: if_splits)
    qed
    with Cons.prems(3) have "r \<in> set rs" by simp
    moreover from Cons.prems(1) have "sorted rs" by simp
    ultimately have "?res \<le> r"
      using Cons.IH [of ?rack'] False Cons.prems(4) res by simp
    with res show ?thesis by simp
  qed
qed

text \<open>
  C6. Whenever the sorted candidate list \<open>rackList\<close> is not empty,
  \<^verbatim>\<open>determinePlacementRack\<close> returns a rack of the list that has the fewest members in
  the rack membership map, and every rack of the list with as few members has a name
  that is not smaller in the order of \<^verbatim>\<open>sort.Strings\<close>.
\<close>

theorem determinePlacementRack_fewest:
  assumes "sort (candidateRacks validKeys nodes (targetAZ validKeys node)
             (defineRacks nodeRacks0 minRacks)) = rackList"
    and "rackList \<noteq> []"
  shows "\<exists>rack.
     determinePlacementRack validKeys nodes node minRacks nodeRacks0 =
       (Inr rack, defineRacks nodeRacks0 minRacks) \<and>
     rack \<in> set rackList \<and>
     (\<forall>r\<in>set rackList.
        len (LabelsAt (defineRacks nodeRacks0 minRacks) rack) \<le>
        len (LabelsAt (defineRacks nodeRacks0 minRacks) r)) \<and>
     (\<forall>r\<in>set rackList.
        len (LabelsAt (defineRacks nodeRacks0 minRacks) r) =
        len (LabelsAt (defineRacks nodeRacks0 minRacks) rack) \<longrightarrow> rack \<le> r)"
proof -
  let ?m = "defineRacks nodeRacks0 minRacks"
  from assms(2) obtain x rs where xs: "rackList = x # rs" by (cases rackList) auto
  have srt: "sorted (x # rs)" using assms(1) xs sorted_sort by metis
  let ?res = "fewestLoop ?m x rs"
  have res: "determinePlacementRack validKeys nodes node minRacks nodeRacks0 = (Inr ?res, ?m)"
    using assms(1) xs by (simp add: determinePlacementRack_def Let_def)
  have mem: "?res \<in> set rackList"
    using fewestLoop_min [of ?m x rs] xs by auto
  have least: "\<forall>r\<in>set rackList. len (LabelsAt ?m ?res) \<le> len (LabelsAt ?m r)"
    using fewestLoop_min [of ?m x rs] xs by auto
  have first: "\<forall>r\<in>set rackList. len (LabelsAt ?m r) = len (LabelsAt ?m ?res) \<longrightarrow> ?res \<le> r"
  proof (intro ballI impI)
    fix r assume r: "r \<in> set rackList" and eq: "len (LabelsAt ?m r) = len (LabelsAt ?m ?res)"
    show "?res \<le> r"
    proof (cases "?res = x")
      case True
      with srt r xs show ?thesis by auto
    next
      case False
      have "r \<noteq> x"
      proof
        assume "r = x"
        with eq fewestLoop_min [of ?m x rs] False show False by auto
      qed
      with r xs have "r \<in> set rs" by simp
      with fewestLoop_first [of rs ?m x r] srt False eq show ?thesis by simp
    qed
  qed
  from res mem least first show ?thesis by blast
qed

text \<open>
  Two racks with one member each and one with two: the rack returned is \<open>rack1\<close>, the
  smaller name of the two with one member.
\<close>

theorem determinePlacementRack_fewest_witness:
  "determinePlacementRack [] [] \<lparr>Name = ''n4'', Labels = Some []\<rparr> 3
     [(''rack2'', Some [''n0'']), (''rack1'', Some [''n1'']), (''rack0'', Some [''n2'', ''n3''])] =
   (Inr ''rack1'',
     [(''rack2'', Some [''n0'']), (''rack1'', Some [''n1'']), (''rack0'', Some [''n2'', ''n3''])])"
  using determinePlacementRack_fewest [of "[]" "[]" "\<lparr>Name = ''n4'', Labels = Some []\<rparr>"
      "[(''rack2'', Some [''n0'']), (''rack1'', Some [''n1'']), (''rack0'', Some [''n2'', ''n3''])]"
      3 "[''rack0'', ''rack1'', ''rack2'']"]
  by (simp add: determinePlacementRack_def candidateRacks_def targetAZ_def defineRacks_def
      nodeLabels_def LabelsAt_def len_def)

text \<open>
  C9. \<^verbatim>\<open>determinePlacementRack\<close> is not total. Three racks exist and \<^verbatim>\<open>minRacks\<close> is
  3, so no rack is defined; each rack holds one node of zone \<open>a\<close>, and the target node
  is in zone \<open>b\<close>: no rack is a candidate, \<^verbatim>\<open>rackList\<close> is empty where
  \<^verbatim>\<open>rackList[0]\<close> is read, and the function panics. \<^verbatim>\<open>ensureNodeRacks\<close> reaches that
  call on the four nodes, none of which has a rack label.
\<close>

theorem determinePlacementRack_empty_rackList:
  "sort (candidateRacks [''topology.kubernetes.io'']
     [\<lparr>Name = ''n0'', Labels = Some [(''topology.kubernetes.io/zone'', ''a'')]\<rparr>,
      \<lparr>Name = ''n1'', Labels = Some [(''topology.kubernetes.io/zone'', ''a'')]\<rparr>,
      \<lparr>Name = ''n2'', Labels = Some [(''topology.kubernetes.io/zone'', ''a'')]\<rparr>,
      \<lparr>Name = ''n3'', Labels = Some [(''topology.kubernetes.io/zone'', ''b'')]\<rparr>]
     (targetAZ [''topology.kubernetes.io'']
        \<lparr>Name = ''n3'', Labels = Some [(''topology.kubernetes.io/zone'', ''b'')]\<rparr>)
     (defineRacks
        [(''rack0'', Some [''n0'']), (''rack1'', Some [''n1'']), (''rack2'', Some [''n2''])] 3)) = [] \<and>
   determinePlacementRack [''topology.kubernetes.io'']
     [\<lparr>Name = ''n0'', Labels = Some [(''topology.kubernetes.io/zone'', ''a'')]\<rparr>,
      \<lparr>Name = ''n1'', Labels = Some [(''topology.kubernetes.io/zone'', ''a'')]\<rparr>,
      \<lparr>Name = ''n2'', Labels = Some [(''topology.kubernetes.io/zone'', ''a'')]\<rparr>,
      \<lparr>Name = ''n3'', Labels = Some [(''topology.kubernetes.io/zone'', ''b'')]\<rparr>]
     \<lparr>Name = ''n3'', Labels = Some [(''topology.kubernetes.io/zone'', ''b'')]\<rparr>
     3 [(''rack0'', Some [''n0'']), (''rack1'', Some [''n1'']), (''rack2'', Some [''n2''])] =
   (Inl PanicIndexOutOfRange,
    [(''rack0'', Some [''n0'']), (''rack1'', Some [''n1'']), (''rack2'', Some [''n2''])]) \<and>
   fst (ensureNodeRacks
     \<lparr>validTopologyLabelKeys = [''topology.kubernetes.io''], RackTopologyKey = ''topology.rook.io/rack''\<rparr>
     \<lparr>List = Inr [], Patch = (\<lambda>node newNode. None)\<rparr>
     \<lparr>nodeCount = 0, patched = []\<rparr>
     [\<lparr>Name = ''n0'', Labels = Some [(''topology.kubernetes.io/zone'', ''a'')]\<rparr>,
      \<lparr>Name = ''n1'', Labels = Some [(''topology.kubernetes.io/zone'', ''a'')]\<rparr>,
      \<lparr>Name = ''n2'', Labels = Some [(''topology.kubernetes.io/zone'', ''a'')]\<rparr>,
      \<lparr>Name = ''n3'', Labels = Some [(''topology.kubernetes.io/zone'', ''b'')]\<rparr>]
     3 []) = Some PanicIndexOutOfRange"
  by code_simp

section \<open>Properties of \<^verbatim>\<open>filterDeprecatedLabels\<close> and of the zone scan\<close>

lemma CompareStringSlices_eq: "CompareStringSlices a b \<longleftrightarrow> a = b"
  by (cases a; cases b)
    (auto simp: CompareStringSlices_def len_def elems_def compareFrom_iff list_eq_iff_nth_eq)

lemma len_sortStrings [simp]: "len (sortStrings v) = len v"
  by (cases v) (simp_all add: len_def sortStrings_def)

lemma zoneScan_iff:
  "zoneScan arb m \<longleftrightarrow>
   (\<exists>(l, v) \<in> set m. strContains l ''zone'' \<and> ((2 \<le> len v \<and> arb) \<or> 3 \<le> len v))"
  by (induction m) auto

lemma map_fst_sortStringsAt [simp]: "map fst (sortStringsAt m k) = map fst m"
  by (induction m) (auto simp: sortStringsAt_def)

lemma map_of_sortStringsAt:
  "map_of (sortStringsAt m k) k' =
     (if k' = k then map_option sortStrings (map_of m k) else map_of m k')"
  by (induction m) (auto simp: sortStringsAt_def)

lemma sortStrings_None [simp]: "sortStrings None = None"
  by (simp add: sortStrings_def)

lemma LabelsAt_sortStringsAt:
  "LabelsAt (sortStringsAt m k) k' = (if k' = k then sortStrings (LabelsAt m k) else LabelsAt m k')"
  by (simp add: LabelsAt_def map_of_sortStringsAt split: option.splits)

lemma zoneScan_sortStringsAt [simp]: "zoneScan arb (sortStringsAt m k) = zoneScan arb m"
proof (induction m)
  case Nil
  show ?case by (simp add: sortStringsAt_def)
next
  case (Cons p m)
  obtain l v where p: "p = (l, v)" by (cases p)
  have "sortStringsAt (p # m) k = (l, if l = k then sortStrings v else v) # sortStringsAt m k"
    by (simp add: sortStringsAt_def p)
  with Cons.IH p show ?case by (cases arb) auto
qed

lemma LabelsAt_delete: "LabelsAt (AList.delete k m) k' = (if k' = k then None else LabelsAt m k')"
  by (simp add: LabelsAt_def delete_conv')

lemma LabelsAt_entry: "distinct (map fst m) \<Longrightarrow> (k, v) \<in> set m \<Longrightarrow> LabelsAt m k = v"
  by (simp add: LabelsAt_def)

lemma entry_LabelsAt: "LabelsAt m k = Some xs \<Longrightarrow> (k, Some xs) \<in> set m"
  by (auto simp: LabelsAt_def split: option.splits dest: map_of_SomeD)

lemma zoneScan_delete_same:
  assumes dist: "distinct (map fst m)"
    and same: "CompareStringSlices (LabelsAt m dep) (LabelsAt m can)"
    and zone: "strContains can ''zone''" and neq: "can \<noteq> dep"
  shows "zoneScan arb (AList.delete dep m) = zoneScan arb m"
proof
  assume "zoneScan arb (AList.delete dep m)"
  then show "zoneScan arb m"
    by (auto simp: zoneScan_iff AList.delete_eq)
next
  assume "zoneScan arb m"
  then obtain l v where lv: "(l, v) \<in> set m" "strContains l ''zone''"
      "(2 \<le> len v \<and> arb) \<or> 3 \<le> len v"
    by (auto simp: zoneScan_iff)
  show "zoneScan arb (AList.delete dep m)"
  proof (cases "l = dep")
    case False
    with lv show ?thesis by (auto simp: zoneScan_iff AList.delete_eq)
  next
    case True
    with lv(1) dist have "LabelsAt m dep = v" by (simp add: LabelsAt_entry)
    with same have can: "LabelsAt m can = v" by (simp add: CompareStringSlices_eq)
    from lv(3) obtain xs where "v = Some xs" by (cases v) (auto simp: len_def)
    with can have "(can, v) \<in> set m" by (simp add: entry_LabelsAt)
    with neq zone lv(3) show ?thesis by (auto simp: zoneScan_iff AList.delete_eq)
  qed
qed

lemma zoneScan_delete_other:
  "\<not> strContains dep ''zone'' \<Longrightarrow> zoneScan arb (AList.delete dep m) = zoneScan arb m"
  by (auto simp: zoneScan_iff AList.delete_eq)

lemma distinct_sortStringsAt [simp]:
  "distinct (map fst (sortStringsAt m k)) = distinct (map fst m)"
  by simp

lemma zone_key_facts:
  "strContains ''topology.kubernetes.io/zone'' ''zone''"
  "\<not> strContains ''failure-domain.beta.kubernetes.io/region'' ''zone''"
  "\<not> strContains ''failure-domain.kubernetes.io/region'' ''zone''"
  "''topology.kubernetes.io/zone'' \<noteq> ''failure-domain.beta.kubernetes.io/zone''"
  "''topology.kubernetes.io/zone'' \<noteq> ''failure-domain.kubernetes.io/zone''"
  by code_simp+

lemma zoneScan_step_zone:
  "distinct (map fst m) \<Longrightarrow> strContains can ''zone'' \<Longrightarrow> can \<noteq> dep \<Longrightarrow>
   zoneScan arb (if CompareStringSlices (LabelsAt m dep) (LabelsAt m can)
                 then AList.delete dep m else m) = zoneScan arb m"
  by (simp add: zoneScan_delete_same)

lemma zoneScan_step_other:
  "\<not> strContains dep ''zone'' \<Longrightarrow>
   zoneScan arb (if c then AList.delete dep m else m) = zoneScan arb m"
  by (simp add: zoneScan_delete_other)

lemma distinct_step:
  "distinct (map fst m) \<Longrightarrow> distinct (map fst (if c then AList.delete dep m else m))"
  by (simp add: distinct_delete)

lemma zoneScan_filterDeprecatedLabels:
  assumes "distinct (map fst m)"
  shows "zoneScan arb (filterDeprecatedLabels m) = zoneScan arb m"
proof -
  define m6 where "m6 =
    sortStringsAt (sortStringsAt (sortStringsAt (sortStringsAt (sortStringsAt (sortStringsAt m
      ''failure-domain.beta.kubernetes.io/zone'') ''failure-domain.kubernetes.io/zone'')
      ''topology.kubernetes.io/zone'') ''failure-domain.beta.kubernetes.io/region'')
      ''failure-domain.kubernetes.io/region'') ''topology.kubernetes.io/region''"
  define m7 where "m7 =
    (if CompareStringSlices (LabelsAt m6 ''failure-domain.beta.kubernetes.io/zone'')
          (LabelsAt m6 ''topology.kubernetes.io/zone'')
     then AList.delete ''failure-domain.beta.kubernetes.io/zone'' m6 else m6)"
  define m8 where "m8 =
    (if CompareStringSlices (LabelsAt m7 ''failure-domain.beta.kubernetes.io/region'')
          (LabelsAt m7 ''topology.kubernetes.io/region'')
     then AList.delete ''failure-domain.beta.kubernetes.io/region'' m7 else m7)"
  define m9 where "m9 =
    (if CompareStringSlices (LabelsAt m8 ''failure-domain.kubernetes.io/zone'')
          (LabelsAt m8 ''topology.kubernetes.io/zone'')
     then AList.delete ''failure-domain.kubernetes.io/zone'' m8 else m8)"
  define m10 where "m10 =
    (if CompareStringSlices (LabelsAt m9 ''failure-domain.kubernetes.io/region'')
          (LabelsAt m9 ''topology.kubernetes.io/region'')
     then AList.delete ''failure-domain.kubernetes.io/region'' m9 else m9)"
  have res: "filterDeprecatedLabels m = m10"
    unfolding filterDeprecatedLabels_def Let_def m10_def m9_def m8_def m7_def m6_def ..
  have d6: "distinct (map fst m6)" and z6: "zoneScan arb m6 = zoneScan arb m"
    using assms by (simp_all only: m6_def distinct_sortStringsAt zoneScan_sortStringsAt)
  have d7: "distinct (map fst m7)" unfolding m7_def by (rule distinct_step [OF d6])
  have z7: "zoneScan arb m7 = zoneScan arb m6"
    unfolding m7_def by (rule zoneScan_step_zone [OF d6 zone_key_facts(1) zone_key_facts(4)])
  have d8: "distinct (map fst m8)" unfolding m8_def by (rule distinct_step [OF d7])
  have z8: "zoneScan arb m8 = zoneScan arb m7"
    unfolding m8_def by (rule zoneScan_step_other [OF zone_key_facts(2)])
  have z9: "zoneScan arb m9 = zoneScan arb m8"
    unfolding m9_def by (rule zoneScan_step_zone [OF d8 zone_key_facts(1) zone_key_facts(5)])
  have z10: "zoneScan arb m10 = zoneScan arb m9"
    unfolding m10_def by (rule zoneScan_step_other [OF zone_key_facts(3)])
  from res z10 z9 z8 z7 z6 show ?thesis by simp
qed

section \<open>Properties of \<^verbatim>\<open>determineFailureDomain\<close>\<close>

lemma Type_domainOf: "Type (domainOf m t) = t"
  by (simp add: domainOf_def split: prod.splits)

text \<open>
  Once the eligible nodes are listed and the topology map is there (the status holds it,
  or enough nodes are listed to discover it), \<^verbatim>\<open>determineFailureDomain\<close> is the
  choice between its four branches, on the filtered topology map \<open>topo\<close>.
\<close>

lemma determineFailureDomain_selection:
  assumes nodes: "getStorageClusterEligibleNodes cl sc = Inr nodes"
    and enough: "Status_NodeTopologies sc = None \<longrightarrow> getMinimumNodes sc \<le> int (length nodes)"
    and topo: "topo = filterDeprecatedLabels
        (case Status_NodeTopologies sc of
           None \<Rightarrow> reconcileNodes (validTopologyLabelKeys d) NewNodeTopologyMap nodes
         | Some m \<Rightarrow> m)"
    and r1: "r1 = (if Status_NodeTopologies sc = None then r\<lparr>nodeCount := int (length nodes)\<rparr> else r)"
  shows "fst (determineFailureDomain d cl r sc) =
     (if Status_FailureDomain sc \<noteq> '''' then Inr (domainOf topo (Status_FailureDomain sc))
      else if Spec_FlexibleScaling sc then Inr (domainOf topo ''host'')
      else if zoneScan (arbiterEnabled sc) topo then Inr (domainOf topo ''zone'')
      else (case ensureNodeRacks d cl r1 nodes (getMinimumNodes sc) topo of
              (Some e, st) \<Rightarrow> Inl (wrapError ''Unable to assign rack labels'' e)
            | (None, st) \<Rightarrow> Inr (domainOf (st_topologyMap st) ''rack'')))"
proof (cases "Status_NodeTopologies sc")
  case None
  with enough have "\<not> int (length nodes) < getMinimumNodes sc" by simp
  with None nodes topo r1 show ?thesis
    by (simp add: determineFailureDomain_def reconcileNodeTopologyMap_def Let_def arbiterEnabled_def
        split: prod.splits option.splits)
next
  case (Some m)
  with nodes topo r1 show ?thesis
    by (simp add: determineFailureDomain_def Let_def arbiterEnabled_def
        split: prod.splits option.splits)
qed

text \<open>
  The two errors before the choice: the eligible nodes cannot be listed, or the status
  has no topology map and fewer nodes than the minimum are listed.
\<close>

lemma determineFailureDomain_list_error:
  "getStorageClusterEligibleNodes cl sc = Inl e \<Longrightarrow>
   fst (determineFailureDomain d cl r sc) =
     Inl (wrapError ''Failed to get storage cluster eligible nodes'' e)"
  by (simp add: determineFailureDomain_def)

lemma determineFailureDomain_too_few_nodes:
  "getStorageClusterEligibleNodes cl sc = Inr nodes \<Longrightarrow> Status_NodeTopologies sc = None \<Longrightarrow>
   int (length nodes) < getMinimumNodes sc \<Longrightarrow>
   fst (determineFailureDomain d cl r sc) =
     Inl (Wrapped ''Failed to reconcile node topology''
       (NotEnoughNodes (getMinimumNodes sc) (int (length nodes))))"
  by (simp add: determineFailureDomain_def reconcileNodeTopologyMap_def Let_def wrapError_def)

text \<open>
  C3. When the status of the storage cluster records a failure-domain type, and the
  eligible nodes are listed and the topology map is there, \<^verbatim>\<open>determineFailureDomain\<close>
  returns a failure domain of exactly that type, with the key and values that
  \<^verbatim>\<open>GetKeyValues\<close> finds for the type in the current, filtered topology map. Neither
  flexible scaling nor the contents of the topology map change the type.
\<close>

theorem determineFailureDomain_cached:
  assumes "getStorageClusterEligibleNodes cl sc = Inr nodes"
    and "Status_NodeTopologies sc = None \<longrightarrow> getMinimumNodes sc \<le> int (length nodes)"
    and "Status_FailureDomain sc \<noteq> ''''"
  shows "\<exists>fd. fst (determineFailureDomain d cl r sc) = Inr fd \<and>
     Type fd = Status_FailureDomain sc \<and>
     (Key fd, Values fd) =
       GetKeyValues
         (filterDeprecatedLabels
            (case Status_NodeTopologies sc of
               None \<Rightarrow> reconcileNodes (validTopologyLabelKeys d) NewNodeTopologyMap nodes
             | Some m \<Rightarrow> m))
         (Status_FailureDomain sc)"
  using determineFailureDomain_selection [OF assms(1,2) refl refl, of d r] assms(3)
  by (simp add: domainOf_def split: prod.splits)

text \<open>
  The status records \<open>zone\<close>, and the only zone label of the topology map has two
  values, with arbiter mode disabled: the domain is \<open>zone\<close>. The same cluster with no
  recorded type gets \<open>rack\<close>.
\<close>

theorem determineFailureDomain_cached_witness:
  "fst (determineFailureDomain
     \<lparr>validTopologyLabelKeys = [''topology.kubernetes.io''], RackTopologyKey = ''topology.rook.io/rack''\<rparr>
     \<lparr>List = Inr [], Patch = (\<lambda>node newNode. None)\<rparr>
     \<lparr>nodeCount = 0, patched = []\<rparr>
     \<lparr>Spec_FlexibleScaling = False, Spec_Arbiter_Enable = False, Spec_MinimumNodes = 3,
      Status_FailureDomain = ''zone'',
      Status_NodeTopologies = Some [(''topology.kubernetes.io/zone'', Some [''b'', ''a''])]\<rparr>) =
     Inr \<lparr>Type = ''zone'', Key = ''topology.kubernetes.io/zone'', Values = [''a'', ''b'']\<rparr> \<and>
   fst (determineFailureDomain
     \<lparr>validTopologyLabelKeys = [''topology.kubernetes.io''], RackTopologyKey = ''topology.rook.io/rack''\<rparr>
     \<lparr>List = Inr [], Patch = (\<lambda>node newNode. None)\<rparr>
     \<lparr>nodeCount = 0, patched = []\<rparr>
     \<lparr>Spec_FlexibleScaling = False, Spec_Arbiter_Enable = False, Spec_MinimumNodes = 3,
      Status_FailureDomain = '''',
      Status_NodeTopologies = Some [(''topology.kubernetes.io/zone'', Some [''b'', ''a''])]\<rparr>) =
     Inr \<lparr>Type = ''rack'', Key = '''', Values = []\<rparr>"
proof -
  let ?d = "\<lparr>validTopologyLabelKeys = [''topology.kubernetes.io''], RackTopologyKey = ''topology.rook.io/rack''\<rparr>"
  let ?cl = "\<lparr>List = Inr [], Patch = (\<lambda>node newNode. None)\<rparr>"
  let ?r = "\<lparr>nodeCount = 0, patched = []\<rparr>"
  let ?sc = "\<lparr>Spec_FlexibleScaling = False, Spec_Arbiter_Enable = False, Spec_MinimumNodes = 3,
      Status_FailureDomain = ''zone'',
      Status_NodeTopologies = Some [(''topology.kubernetes.io/zone'', Some [''b'', ''a''])]\<rparr>"
  have h1: "getStorageClusterEligibleNodes ?cl ?sc = Inr []"
    by (simp add: getStorageClusterEligibleNodes_def)
  have h2: "Status_NodeTopologies ?sc = None \<longrightarrow> getMinimumNodes ?sc \<le> int (length ([] :: Node list))"
    by simp
  have h3: "Status_FailureDomain ?sc \<noteq> ''''" by simp
  from determineFailureDomain_cached [OF h1 h2 h3, of ?d ?r]
  obtain fd where fd: "fst (determineFailureDomain ?d ?cl ?r ?sc) = Inr fd"
    and ty: "Type fd = ''zone''" by auto
  have e1: "fst (determineFailureDomain ?d ?cl ?r ?sc) =
     Inr \<lparr>Type = ''zone'', Key = ''topology.kubernetes.io/zone'', Values = [''a'', ''b'']\<rparr>"
    by code_simp
  have e2: "fst (determineFailureDomain ?d ?cl ?r (?sc\<lparr>Status_FailureDomain := ''''\<rparr>)) =
     Inr \<lparr>Type = ''rack'', Key = '''', Values = []\<rparr>"
    by code_simp
  from fd ty e1 e2 show ?thesis by simp
qed

lemma distinct_Add: "distinct (map fst m) \<Longrightarrow> distinct (map fst (Add m k v))"
  by (simp add: Add_def distinct_update)

lemma distinct_reconcileKeys:
  "distinct (map fst m) \<Longrightarrow> distinct (map fst (reconcileKeys m label v keys))"
  by (induction keys arbitrary: m) (simp_all add: distinct_Add)

lemma distinct_reconcileLabels:
  "distinct (map fst m) \<Longrightarrow> distinct (map fst (reconcileLabels validKeys m labels))"
  by (induction labels arbitrary: m) (auto simp: distinct_reconcileKeys)

lemma distinct_reconcileNodes:
  "distinct (map fst m) \<Longrightarrow> distinct (map fst (reconcileNodes validKeys m nodes))"
  by (induction nodes arbitrary: m) (simp_all add: distinct_reconcileLabels)

text \<open>
  C1, as the code has it. Flexible scaling yields \<open>host\<close> when the status records no
  failure-domain type (and the eligible nodes are listed and the topology map is
  there): the recorded type comes first.
\<close>

theorem determineFailureDomain_flexibleScaling:
  assumes "getStorageClusterEligibleNodes cl sc = Inr nodes"
    and "Status_NodeTopologies sc = None \<longrightarrow> getMinimumNodes sc \<le> int (length nodes)"
    and "Status_FailureDomain sc = ''''"
    and "Spec_FlexibleScaling sc"
  shows "\<exists>fd. fst (determineFailureDomain d cl r sc) = Inr fd \<and>
     Type fd = ''host'' \<and>
     (Key fd, Values fd) =
       GetKeyValues
         (filterDeprecatedLabels
            (case Status_NodeTopologies sc of
               None \<Rightarrow> reconcileNodes (validTopologyLabelKeys d) NewNodeTopologyMap nodes
             | Some m \<Rightarrow> m))
         ''host''"
  using determineFailureDomain_selection [OF assms(1,2) refl refl, of d r] assms(3,4)
  by (simp add: domainOf_def split: prod.splits)

text \<open>
  Flexible scaling, no recorded type, and a topology map with a zone label of three
  values and a host name label: the domain is \<open>host\<close>.
\<close>

theorem determineFailureDomain_flexibleScaling_witness:
  "fst (determineFailureDomain
     \<lparr>validTopologyLabelKeys = [''topology.kubernetes.io'', ''kubernetes.io/hostname''],
      RackTopologyKey = ''topology.rook.io/rack''\<rparr>
     \<lparr>List = Inr [], Patch = (\<lambda>node newNode. None)\<rparr>
     \<lparr>nodeCount = 0, patched = []\<rparr>
     \<lparr>Spec_FlexibleScaling = True, Spec_Arbiter_Enable = False, Spec_MinimumNodes = 3,
      Status_FailureDomain = '''',
      Status_NodeTopologies = Some
        [(''topology.kubernetes.io/zone'', Some [''a'', ''b'', ''c'']),
         (''kubernetes.io/hostname'', Some [''n2'', ''n0'', ''n1''])]\<rparr>) =
     Inr \<lparr>Type = ''host'', Key = ''kubernetes.io/hostname'', Values = [''n0'', ''n1'', ''n2'']\<rparr>"
proof -
  let ?d = "\<lparr>validTopologyLabelKeys = [''topology.kubernetes.io'', ''kubernetes.io/hostname''],
      RackTopologyKey = ''topology.rook.io/rack''\<rparr>"
  let ?cl = "\<lparr>List = Inr [], Patch = (\<lambda>node newNode. None)\<rparr>"
  let ?r = "\<lparr>nodeCount = 0, patched = []\<rparr>"
  let ?sc = "\<lparr>Spec_FlexibleScaling = True, Spec_Arbiter_Enable = False, Spec_MinimumNodes = 3,
      Status_FailureDomain = '''',
      Status_NodeTopologies = Some
        [(''topology.kubernetes.io/zone'', Some [''a'', ''b'', ''c'']),
         (''kubernetes.io/hostname'', Some [''n2'', ''n0'', ''n1''])]\<rparr>"
  have h1: "getStorageClusterEligibleNodes ?cl ?sc = Inr []"
    by (simp add: getStorageClusterEligibleNodes_def)
  have h2: "Status_NodeTopologies ?sc = None \<longrightarrow> getMinimumNodes ?sc \<le> int (length ([] :: Node list))"
    by simp
  have h3: "Status_FailureDomain ?sc = ''''" and h4: "Spec_FlexibleScaling ?sc" by simp_all
  from determineFailureDomain_flexibleScaling [OF h1 h2 h3 h4, of ?d ?r]
  obtain fd where fd: "fst (determineFailureDomain ?d ?cl ?r ?sc) = Inr fd"
    and ty: "Type fd = ''host''" by auto
  have e1: "fst (determineFailureDomain ?d ?cl ?r ?sc) =
     Inr \<lparr>Type = ''host'', Key = ''kubernetes.io/hostname'', Values = [''n0'', ''n1'', ''n2'']\<rparr>"
    by code_simp
  from fd ty e1 show ?thesis by simp
qed

text \<open>
  C1 as stated fails: flexible scaling is enabled and the status records \<open>zone\<close>; the
  domain returned is \<open>zone\<close>, not \<open>host\<close>.
\<close>

theorem determineFailureDomain_flexibleScaling_cached_zone:
  "Spec_FlexibleScaling
     \<lparr>Spec_FlexibleScaling = True, Spec_Arbiter_Enable = False, Spec_MinimumNodes = 3,
      Status_FailureDomain = ''zone'',
      Status_NodeTopologies = Some [(''topology.kubernetes.io/zone'', Some [''a'', ''b'', ''c''])]\<rparr> \<and>
   fst (determineFailureDomain
     \<lparr>validTopologyLabelKeys = [''topology.kubernetes.io'', ''kubernetes.io/hostname''],
      RackTopologyKey = ''topology.rook.io/rack''\<rparr>
     \<lparr>List = Inr [], Patch = (\<lambda>node newNode. None)\<rparr>
     \<lparr>nodeCount = 0, patched = []\<rparr>
     \<lparr>Spec_FlexibleScaling = True, Spec_Arbiter_Enable = False, Spec_MinimumNodes = 3,
      Status_FailureDomain = ''zone'',
      Status_NodeTopologies = Some [(''topology.kubernetes.io/zone'', Some [''a'', ''b'', ''c''])]\<rparr>) =
     Inr \<lparr>Type = ''zone'', Key = ''topology.kubernetes.io/zone'', Values = [''a'', ''b'', ''c'']\<rparr>"
  by code_simp

text \<open>
  C4. With no recorded failure-domain type and flexible scaling disabled (and the
  eligible nodes listed and the topology map there), the domain is \<open>zone\<close> exactly when
  some label of the topology map contains \<^verbatim>\<open>"zone"\<close> and has at least three values,
  or at least two with arbiter mode enabled. Otherwise the selection falls through to
  the rack assignment, whose outcome it returns: with arbiter mode disabled, zone
  labels of exactly two values do not select \<open>zone\<close>. The threshold is read on the
  topology map before the filter: the filter removes a deprecated zone label only
  where the canonical zone label has the same values.
\<close>

theorem determineFailureDomain_zone_threshold:
  assumes "getStorageClusterEligibleNodes cl sc = Inr nodes"
    and "Status_NodeTopologies sc = None \<longrightarrow> getMinimumNodes sc \<le> int (length nodes)"
    and "\<forall>m. Status_NodeTopologies sc = Some m \<longrightarrow> distinct (map fst m)"
    and "Status_FailureDomain sc = ''''"
    and "\<not> Spec_FlexibleScaling sc"
    and "topologyMap =
       (case Status_NodeTopologies sc of
          None \<Rightarrow> reconcileNodes (validTopologyLabelKeys d) NewNodeTopologyMap nodes
        | Some m \<Rightarrow> m)"
    and "r1 = (if Status_NodeTopologies sc = None then r\<lparr>nodeCount := int (length nodes)\<rparr> else r)"
  shows "if \<exists>(label, labelValues) \<in> set topologyMap.
            strContains label ''zone'' \<and>
            (if arbiterEnabled sc then 2 else 3) \<le> len labelValues
         then \<exists>fd. fst (determineFailureDomain d cl r sc) = Inr fd \<and> Type fd = ''zone''
         else fst (determineFailureDomain d cl r sc) =
           (case ensureNodeRacks d cl r1 nodes (getMinimumNodes sc)
                   (filterDeprecatedLabels topologyMap) of
              (Some e, st) \<Rightarrow> Inl (wrapError ''Unable to assign rack labels'' e)
            | (None, st) \<Rightarrow> Inr (domainOf (st_topologyMap st) ''rack''))"
proof -
  have dist: "distinct (map fst topologyMap)"
    using assms(3,6)
    by (cases "Status_NodeTopologies sc") (simp_all add: distinct_reconcileNodes NewNodeTopologyMap_def)
  have scan: "zoneScan (arbiterEnabled sc) (filterDeprecatedLabels topologyMap) \<longleftrightarrow>
      (\<exists>(label, labelValues) \<in> set topologyMap.
            strContains label ''zone'' \<and>
            (if arbiterEnabled sc then 2 else 3) \<le> len labelValues)"
  proof -
    have "zoneScan (arbiterEnabled sc) topologyMap \<longleftrightarrow>
      (\<exists>(label, labelValues) \<in> set topologyMap.
            strContains label ''zone'' \<and>
            (if arbiterEnabled sc then 2 else 3) \<le> len labelValues)"
      by (cases "arbiterEnabled sc") (force simp: zoneScan_iff)+
    then show ?thesis by (simp only: zoneScan_filterDeprecatedLabels [OF dist])
  qed
  from determineFailureDomain_selection [OF assms(1,2) refl assms(7), of d] assms(4,5,6) scan
  show ?thesis
    by (simp add: Type_domainOf)
qed

text \<open>
  Three nodes in the zones \<open>a\<close>, \<open>b\<close>, \<open>a\<close>, and a topology map whose zone label has
  the two values: with arbiter mode disabled the nodes are assigned to racks and the
  domain is \<open>rack\<close>; with arbiter mode enabled the domain is \<open>zone\<close>; with a third
  value it is \<open>zone\<close> with arbiter mode disabled.
\<close>

theorem determineFailureDomain_zone_threshold_witness:
  "fst (determineFailureDomain
     \<lparr>validTopologyLabelKeys = [''topology.kubernetes.io''], RackTopologyKey = ''topology.rook.io/rack''\<rparr>
     \<lparr>List = Inr
        [\<lparr>Name = ''n0'', Labels = Some [(''topology.kubernetes.io/zone'', ''a'')]\<rparr>,
         \<lparr>Name = ''n1'', Labels = Some [(''topology.kubernetes.io/zone'', ''b'')]\<rparr>,
         \<lparr>Name = ''n2'', Labels = Some [(''topology.kubernetes.io/zone'', ''a'')]\<rparr>],
      Patch = (\<lambda>node newNode. None)\<rparr>
     \<lparr>nodeCount = 0, patched = []\<rparr>
     \<lparr>Spec_FlexibleScaling = False, Spec_Arbiter_Enable = False, Spec_MinimumNodes = 3,
      Status_FailureDomain = '''',
      Status_NodeTopologies = Some [(''topology.kubernetes.io/zone'', Some [''a'', ''b''])]\<rparr>) =
     Inr \<lparr>Type = ''rack'', Key = ''topology.rook.io/rack'', Values = [''rack0'', ''rack1'', ''rack2'']\<rparr> \<and>
   fst (determineFailureDomain
     \<lparr>validTopologyLabelKeys = [''topology.kubernetes.io''], RackTopologyKey = ''topology.rook.io/rack''\<rparr>
     \<lparr>List = Inr
        [\<lparr>Name = ''n0'', Labels = Some [(''topology.kubernetes.io/zone'', ''a'')]\<rparr>,
         \<lparr>Name = ''n1'', Labels = Some [(''topology.kubernetes.io/zone'', ''b'')]\<rparr>,
         \<lparr>Name = ''n2'', Labels = Some [(''topology.kubernetes.io/zone'', ''a'')]\<rparr>],
      Patch = (\<lambda>node newNode. None)\<rparr>
     \<lparr>nodeCount = 0, patched = []\<rparr>
     \<lparr>Spec_FlexibleScaling = False, Spec_Arbiter_Enable = True, Spec_MinimumNodes = 3,
      Status_FailureDomain = '''',
      Status_NodeTopologies = Some [(''topology.kubernetes.io/zone'', Some [''a'', ''b''])]\<rparr>) =
     Inr \<lparr>Type = ''zone'', Key = ''topology.kubernetes.io/zone'', Values = [''a'', ''b'']\<rparr> \<and>
   fst (determineFailureDomain
     \<lparr>validTopologyLabelKeys = [''topology.kubernetes.io''], RackTopologyKey = ''topology.rook.io/rack''\<rparr>
     \<lparr>List = Inr
        [\<lparr>Name = ''n0'', Labels = Some [(''topology.kubernetes.io/zone'', ''a'')]\<rparr>,
         \<lparr>Name = ''n1'', Labels = Some [(''topology.kubernetes.io/zone'', ''b'')]\<rparr>,
         \<lparr>Name = ''n2'', Labels = Some [(''topology.kubernetes.io/zone'', ''a'')]\<rparr>],
      Patch = (\<lambda>node newNode. None)\<rparr>
     \<lparr>nodeCount = 0, patched = []\<rparr>
     \<lparr>Spec_FlexibleScaling = False, Spec_Arbiter_Enable = False, Spec_MinimumNodes = 3,
      Status_FailureDomain = '''',
      Status_NodeTopologies = Some [(''topology.kubernetes.io/zone'', Some [''a'', ''b'', ''c''])]\<rparr>) =
     Inr \<lparr>Type = ''zone'', Key = ''topology.kubernetes.io/zone'', Values = [''a'', ''b'', ''c'']\<rparr>"
proof -
  let ?d = "\<lparr>validTopologyLabelKeys = [''topology.kubernetes.io''], RackTopologyKey = ''topology.rook.io/rack''\<rparr>"
  let ?nodes = "[\<lparr>Name = ''n0'', Labels = Some [(''topology.kubernetes.io/zone'', ''a'')]\<rparr>,
         \<lparr>Name = ''n1'', Labels = Some [(''topology.kubernetes.io/zone'', ''b'')]\<rparr>,
         \<lparr>Name = ''n2'', Labels = Some [(''topology.kubernetes.io/zone'', ''a'')]\<rparr>]"
  let ?cl = "\<lparr>List = Inr ?nodes, Patch = (\<lambda>node newNode. None)\<rparr>"
  let ?r = "\<lparr>nodeCount = 0, patched = []\<rparr>"
  let ?m = "[(''topology.kubernetes.io/zone'', Some [''a'', ''b''])]"
  let ?sc = "\<lparr>Spec_FlexibleScaling = False, Spec_Arbiter_Enable = True, Spec_MinimumNodes = 3,
      Status_FailureDomain = '''', Status_NodeTopologies = Some ?m\<rparr>"
  have h1: "getStorageClusterEligibleNodes ?cl ?sc = Inr ?nodes"
    by (simp add: getStorageClusterEligibleNodes_def)
  have h2: "Status_NodeTopologies ?sc = None \<longrightarrow> getMinimumNodes ?sc \<le> int (length ?nodes)"
    by simp
  have h3: "\<forall>m. Status_NodeTopologies ?sc = Some m \<longrightarrow> distinct (map fst m)" by simp
  have h4: "Status_FailureDomain ?sc = ''''" and h5: "\<not> Spec_FlexibleScaling ?sc" by simp_all
  have h6: "?m = (case Status_NodeTopologies ?sc of
          None \<Rightarrow> reconcileNodes (validTopologyLabelKeys ?d) NewNodeTopologyMap ?nodes
        | Some m \<Rightarrow> m)" by simp
  have h7: "?r = (if Status_NodeTopologies ?sc = None then ?r\<lparr>nodeCount := int (length ?nodes)\<rparr> else ?r)"
    by simp
  have zone: "\<exists>(label, labelValues) \<in> set ?m.
      strContains label ''zone'' \<and> (if arbiterEnabled ?sc then 2 else 3) \<le> len labelValues"
    by (simp add: arbiterEnabled_def len_def)
  from determineFailureDomain_zone_threshold [OF h1 h2 h3 h4 h5 h6 h7] zone
  have "\<exists>fd. fst (determineFailureDomain ?d ?cl ?r ?sc) = Inr fd \<and> Type fd = ''zone''"
    by (simp only: if_True)
  moreover have "fst (determineFailureDomain ?d ?cl ?r (?sc\<lparr>Spec_Arbiter_Enable := False\<rparr>)) =
     Inr \<lparr>Type = ''rack'', Key = ''topology.rook.io/rack'', Values = [''rack0'', ''rack1'', ''rack2'']\<rparr>"
    by code_simp
  moreover have "fst (determineFailureDomain ?d ?cl ?r ?sc) =
     Inr \<lparr>Type = ''zone'', Key = ''topology.kubernetes.io/zone'', Values = [''a'', ''b'']\<rparr>"
    by code_simp
  moreover have "fst (determineFailureDomain ?d ?cl ?r
       (?sc\<lparr>Spec_Arbiter_Enable := False,
          Status_NodeTopologies := Some [(''topology.kubernetes.io/zone'', Some [''a'', ''b'', ''c''])]\<rparr>)) =
     Inr \<lparr>Type = ''zone'', Key = ''topology.kubernetes.io/zone'', Values = [''a'', ''b'', ''c'']\<rparr>"
    by code_simp
  ultimately show ?thesis by simp
qed

section \<open>The keys that \<^verbatim>\<open>filterDeprecatedLabels\<close> removes\<close>

lemma keys_sortStringsAt [simp]: "fst ` set (sortStringsAt m k) = fst ` set m"
  using map_fst_sortStringsAt [of m k] by (metis set_map)

lemma delete_step:
  assumes "m' = (if CompareStringSlices (LabelsAt m dep) (LabelsAt m can)
                 then AList.delete dep m else m)"
  shows "fst ` set m' = fst ` set m - (if LabelsAt m dep = LabelsAt m can then {dep} else {})"
    and "k \<noteq> dep \<Longrightarrow> LabelsAt m' k = LabelsAt m k"
    and "LabelsAt m dep \<noteq> LabelsAt m can \<Longrightarrow> LabelsAt m' dep = LabelsAt m dep"
  using assms
  by (auto simp: CompareStringSlices_eq LabelsAt_delete delete_keys simp flip: set_map)

lemma sorted_keys:
  fixes m :: NodeTopologyMap
  defines "m6 \<equiv>
    sortStringsAt (sortStringsAt (sortStringsAt (sortStringsAt (sortStringsAt (sortStringsAt m
      ''failure-domain.beta.kubernetes.io/zone'') ''failure-domain.kubernetes.io/zone'')
      ''topology.kubernetes.io/zone'') ''failure-domain.beta.kubernetes.io/region'')
      ''failure-domain.kubernetes.io/region'') ''topology.kubernetes.io/region''"
  shows "fst ` set m6 = fst ` set m"
    and "LabelsAt m6 ''failure-domain.beta.kubernetes.io/zone'' =
           sortStrings (LabelsAt m ''failure-domain.beta.kubernetes.io/zone'')"
    and "LabelsAt m6 ''failure-domain.kubernetes.io/zone'' =
           sortStrings (LabelsAt m ''failure-domain.kubernetes.io/zone'')"
    and "LabelsAt m6 ''topology.kubernetes.io/zone'' =
           sortStrings (LabelsAt m ''topology.kubernetes.io/zone'')"
    and "LabelsAt m6 ''failure-domain.beta.kubernetes.io/region'' =
           sortStrings (LabelsAt m ''failure-domain.beta.kubernetes.io/region'')"
    and "LabelsAt m6 ''failure-domain.kubernetes.io/region'' =
           sortStrings (LabelsAt m ''failure-domain.kubernetes.io/region'')"
    and "LabelsAt m6 ''topology.kubernetes.io/region'' =
           sortStrings (LabelsAt m ''topology.kubernetes.io/region'')"
  unfolding m6_def by (simp_all add: LabelsAt_sortStringsAt)

lemma filterDeprecatedLabels_char:
  fixes m :: NodeTopologyMap
  defines "F \<equiv> filterDeprecatedLabels m"
    and "bz \<equiv> ''failure-domain.beta.kubernetes.io/zone''"
    and "fz \<equiv> ''failure-domain.kubernetes.io/zone''"
    and "tz \<equiv> ''topology.kubernetes.io/zone''"
    and "br \<equiv> ''failure-domain.beta.kubernetes.io/region''"
    and "fr \<equiv> ''failure-domain.kubernetes.io/region''"
    and "tr \<equiv> ''topology.kubernetes.io/region''"
  shows "(sortStrings (LabelsAt m bz) = sortStrings (LabelsAt m tz) \<longrightarrow> bz \<notin> fst ` set F) \<and>
         (sortStrings (LabelsAt m bz) \<noteq> sortStrings (LabelsAt m tz) \<longrightarrow>
            (bz \<in> fst ` set F \<longleftrightarrow> bz \<in> fst ` set m) \<and>
            LabelsAt F bz = sortStrings (LabelsAt m bz)) \<and>
         (tz \<in> fst ` set F \<longleftrightarrow> tz \<in> fst ` set m) \<and>
         LabelsAt F tz = sortStrings (LabelsAt m tz)"
    and "(sortStrings (LabelsAt m fz) = sortStrings (LabelsAt m tz) \<longrightarrow> fz \<notin> fst ` set F) \<and>
         (sortStrings (LabelsAt m fz) \<noteq> sortStrings (LabelsAt m tz) \<longrightarrow>
            (fz \<in> fst ` set F \<longleftrightarrow> fz \<in> fst ` set m) \<and>
            LabelsAt F fz = sortStrings (LabelsAt m fz)) \<and>
         (tz \<in> fst ` set F \<longleftrightarrow> tz \<in> fst ` set m) \<and>
         LabelsAt F tz = sortStrings (LabelsAt m tz)"
    and "(sortStrings (LabelsAt m br) = sortStrings (LabelsAt m tr) \<longrightarrow> br \<notin> fst ` set F) \<and>
         (sortStrings (LabelsAt m br) \<noteq> sortStrings (LabelsAt m tr) \<longrightarrow>
            (br \<in> fst ` set F \<longleftrightarrow> br \<in> fst ` set m) \<and>
            LabelsAt F br = sortStrings (LabelsAt m br)) \<and>
         (tr \<in> fst ` set F \<longleftrightarrow> tr \<in> fst ` set m) \<and>
         LabelsAt F tr = sortStrings (LabelsAt m tr)"
    and "(sortStrings (LabelsAt m fr) = sortStrings (LabelsAt m tr) \<longrightarrow> fr \<notin> fst ` set F) \<and>
         (sortStrings (LabelsAt m fr) \<noteq> sortStrings (LabelsAt m tr) \<longrightarrow>
            (fr \<in> fst ` set F \<longleftrightarrow> fr \<in> fst ` set m) \<and>
            LabelsAt F fr = sortStrings (LabelsAt m fr)) \<and>
         (tr \<in> fst ` set F \<longleftrightarrow> tr \<in> fst ` set m) \<and>
         LabelsAt F tr = sortStrings (LabelsAt m tr)"
proof -
  define m6 where "m6 =
    sortStringsAt (sortStringsAt (sortStringsAt (sortStringsAt (sortStringsAt (sortStringsAt m
      bz) fz) tz) br) fr) tr"
  define m7 where "m7 =
    (if CompareStringSlices (LabelsAt m6 bz) (LabelsAt m6 tz) then AList.delete bz m6 else m6)"
  define m8 where "m8 =
    (if CompareStringSlices (LabelsAt m7 br) (LabelsAt m7 tr) then AList.delete br m7 else m7)"
  define m9 where "m9 =
    (if CompareStringSlices (LabelsAt m8 fz) (LabelsAt m8 tz) then AList.delete fz m8 else m8)"
  define m10 where "m10 =
    (if CompareStringSlices (LabelsAt m9 fr) (LabelsAt m9 tr) then AList.delete fr m9 else m9)"
  have res: "F = m10"
    unfolding F_def filterDeprecatedLabels_def Let_def m10_def m9_def m8_def m7_def m6_def
      bz_def fz_def tz_def br_def fr_def tr_def ..
  have neq: "bz \<noteq> tz" "bz \<noteq> br" "bz \<noteq> tr" "bz \<noteq> fz" "bz \<noteq> fr"
      "br \<noteq> tz" "br \<noteq> tr" "br \<noteq> fz" "br \<noteq> fr"
      "fz \<noteq> tz" "fz \<noteq> tr" "fz \<noteq> fr" "fr \<noteq> tz" "fr \<noteq> tr" "tz \<noteq> tr"
    unfolding bz_def fz_def tz_def br_def fr_def tr_def by simp_all
  note s6 = sorted_keys [of m, folded bz_def fz_def tz_def br_def fr_def tr_def m6_def]
  note s7 = delete_step [OF m7_def]
  note s8 = delete_step [OF m8_def]
  note s9 = delete_step [OF m9_def]
  note s10 = delete_step [OF m10_def]
  have tz7: "LabelsAt m7 tz = sortStrings (LabelsAt m tz)"
    and tr7: "LabelsAt m7 tr = sortStrings (LabelsAt m tr)"
    and br7: "LabelsAt m7 br = sortStrings (LabelsAt m br)"
    and fz7: "LabelsAt m7 fz = sortStrings (LabelsAt m fz)"
    and fr7: "LabelsAt m7 fr = sortStrings (LabelsAt m fr)"
    using neq by (simp_all add: s7(2) s6)
  have tz8: "LabelsAt m8 tz = sortStrings (LabelsAt m tz)"
    and tr8: "LabelsAt m8 tr = sortStrings (LabelsAt m tr)"
    and fz8: "LabelsAt m8 fz = sortStrings (LabelsAt m fz)"
    and fr8: "LabelsAt m8 fr = sortStrings (LabelsAt m fr)"
    using neq by (simp_all add: s8(2) tz7 tr7 fz7 fr7)
  have tz9: "LabelsAt m9 tz = sortStrings (LabelsAt m tz)"
    and tr9: "LabelsAt m9 tr = sortStrings (LabelsAt m tr)"
    and fr9: "LabelsAt m9 fr = sortStrings (LabelsAt m fr)"
    using neq by (simp_all add: s9(2) tz8 tr8 fr8)
  have keys: "fst ` set F = fst ` set m
           - (if sortStrings (LabelsAt m bz) = sortStrings (LabelsAt m tz) then {bz} else {})
           - (if sortStrings (LabelsAt m br) = sortStrings (LabelsAt m tr) then {br} else {})
           - (if sortStrings (LabelsAt m fz) = sortStrings (LabelsAt m tz) then {fz} else {})
           - (if sortStrings (LabelsAt m fr) = sortStrings (LabelsAt m tr) then {fr} else {})"
    unfolding res s10(1) s9(1) s8(1) s7(1) s6 br7 tr7 fz8 tz8 fr9 tr9 ..
  have vtz: "LabelsAt F tz = sortStrings (LabelsAt m tz)"
    using neq by (simp add: res s10(2) tz9)
  have vtr: "LabelsAt F tr = sortStrings (LabelsAt m tr)"
    using neq by (simp add: res s10(2) tr9)
  have vbz: "LabelsAt F bz = sortStrings (LabelsAt m bz)"
    if "sortStrings (LabelsAt m bz) \<noteq> sortStrings (LabelsAt m tz)"
    using neq that by (simp add: res s10(2) s9(2) s8(2) s7(3) s6)
  have vbr: "LabelsAt F br = sortStrings (LabelsAt m br)"
    if "sortStrings (LabelsAt m br) \<noteq> sortStrings (LabelsAt m tr)"
    using neq that by (simp add: res s10(2) s9(2) s8(3) br7 tr7)
  have vfz: "LabelsAt F fz = sortStrings (LabelsAt m fz)"
    if "sortStrings (LabelsAt m fz) \<noteq> sortStrings (LabelsAt m tz)"
    using neq that by (simp add: res s10(2) s9(3) fz8 tz8)
  have vfr: "LabelsAt F fr = sortStrings (LabelsAt m fr)"
    if "sortStrings (LabelsAt m fr) \<noteq> sortStrings (LabelsAt m tr)"
    using neq that by (simp add: res s10(3) fr9 tr9)
  show "(sortStrings (LabelsAt m bz) = sortStrings (LabelsAt m tz) \<longrightarrow> bz \<notin> fst ` set F) \<and>
         (sortStrings (LabelsAt m bz) \<noteq> sortStrings (LabelsAt m tz) \<longrightarrow>
            (bz \<in> fst ` set F \<longleftrightarrow> bz \<in> fst ` set m) \<and>
            LabelsAt F bz = sortStrings (LabelsAt m bz)) \<and>
         (tz \<in> fst ` set F \<longleftrightarrow> tz \<in> fst ` set m) \<and>
         LabelsAt F tz = sortStrings (LabelsAt m tz)"
    using neq vbz by (simp add: keys vtz)
  show "(sortStrings (LabelsAt m fz) = sortStrings (LabelsAt m tz) \<longrightarrow> fz \<notin> fst ` set F) \<and>
         (sortStrings (LabelsAt m fz) \<noteq> sortStrings (LabelsAt m tz) \<longrightarrow>
            (fz \<in> fst ` set F \<longleftrightarrow> fz \<in> fst ` set m) \<and>
            LabelsAt F fz = sortStrings (LabelsAt m fz)) \<and>
         (tz \<in> fst ` set F \<longleftrightarrow> tz \<in> fst ` set m) \<and>
         LabelsAt F tz = sortStrings (LabelsAt m tz)"
    using neq vfz by (simp add: keys vtz)
  show "(sortStrings (LabelsAt m br) = sortStrings (LabelsAt m tr) \<longrightarrow> br \<notin> fst ` set F) \<and>
         (sortStrings (LabelsAt m br) \<noteq> sortStrings (LabelsAt m tr) \<longrightarrow>
            (br \<in> fst ` set F \<longleftrightarrow> br \<in> fst ` set m) \<and>
            LabelsAt F br = sortStrings (LabelsAt m br)) \<and>
         (tr \<in> fst ` set F \<longleftrightarrow> tr \<in> fst ` set m) \<and>
         LabelsAt F tr = sortStrings (LabelsAt m tr)"
    using neq vbr by (simp add: keys vtr)
  show "(sortStrings (LabelsAt m fr) = sortStrings (LabelsAt m tr) \<longrightarrow> fr \<notin> fst ` set F) \<and>
         (sortStrings (LabelsAt m fr) \<noteq> sortStrings (LabelsAt m tr) \<longrightarrow>
            (fr \<in> fst ` set F \<longleftrightarrow> fr \<in> fst ` set m) \<and>
            LabelsAt F fr = sortStrings (LabelsAt m fr)) \<and>
         (tr \<in> fst ` set F \<longleftrightarrow> tr \<in> fst ` set m) \<and>
         LabelsAt F tr = sortStrings (LabelsAt m tr)"
    using neq vfr by (simp add: keys vtr)
qed

text \<open>
  C5. For each deprecated zone or region key and its canonical key
  (\<^verbatim>\<open>topology.kubernetes.io/...\<close>), after \<^verbatim>\<open>filterDeprecatedLabels\<close>: when the sorted
  values under the deprecated key equal the sorted values under the canonical key, the
  deprecated key is not in the map; when they differ, the deprecated key is in the map
  exactly if it was, with its values sorted. The canonical key is in the map exactly if
  it was, with its values sorted. The values under a key are the slice that the map
  gives for it, nil for an absent key, and slices are equal as
  \<^verbatim>\<open>CompareStringSlices\<close> has it: a nil slice equals no slice that is not nil.
\<close>

theorem filterDeprecatedLabels_deprecated:
  assumes "(dep, can) \<in> set
     [(''failure-domain.beta.kubernetes.io/zone'', ''topology.kubernetes.io/zone''),
      (''failure-domain.kubernetes.io/zone'', ''topology.kubernetes.io/zone''),
      (''failure-domain.beta.kubernetes.io/region'', ''topology.kubernetes.io/region''),
      (''failure-domain.kubernetes.io/region'', ''topology.kubernetes.io/region'')]"
  shows "(sortStrings (LabelsAt m dep) = sortStrings (LabelsAt m can) \<longrightarrow>
            dep \<notin> fst ` set (filterDeprecatedLabels m)) \<and>
         (sortStrings (LabelsAt m dep) \<noteq> sortStrings (LabelsAt m can) \<longrightarrow>
            (dep \<in> fst ` set (filterDeprecatedLabels m) \<longleftrightarrow> dep \<in> fst ` set m) \<and>
            LabelsAt (filterDeprecatedLabels m) dep = sortStrings (LabelsAt m dep)) \<and>
         (can \<in> fst ` set (filterDeprecatedLabels m) \<longleftrightarrow> can \<in> fst ` set m) \<and>
         LabelsAt (filterDeprecatedLabels m) can = sortStrings (LabelsAt m can)"
proof -
  from assms have
    "dep = ''failure-domain.beta.kubernetes.io/zone'' \<and> can = ''topology.kubernetes.io/zone'' \<or>
     dep = ''failure-domain.kubernetes.io/zone'' \<and> can = ''topology.kubernetes.io/zone'' \<or>
     dep = ''failure-domain.beta.kubernetes.io/region'' \<and> can = ''topology.kubernetes.io/region'' \<or>
     dep = ''failure-domain.kubernetes.io/region'' \<and> can = ''topology.kubernetes.io/region''"
    by (simp only: set_simps insert_iff empty_iff prod.inject simp_thms)
  then show ?thesis
  proof (elim disjE conjE)
    assume a: "dep = ''failure-domain.beta.kubernetes.io/zone''" "can = ''topology.kubernetes.io/zone''"
    show ?thesis unfolding a by (rule filterDeprecatedLabels_char(1))
  next
    assume a: "dep = ''failure-domain.kubernetes.io/zone''" "can = ''topology.kubernetes.io/zone''"
    show ?thesis unfolding a by (rule filterDeprecatedLabels_char(2))
  next
    assume a: "dep = ''failure-domain.beta.kubernetes.io/region''" "can = ''topology.kubernetes.io/region''"
    show ?thesis unfolding a by (rule filterDeprecatedLabels_char(3))
  next
    assume a: "dep = ''failure-domain.kubernetes.io/region''" "can = ''topology.kubernetes.io/region''"
    show ?thesis unfolding a by (rule filterDeprecatedLabels_char(4))
  qed
qed

text \<open>
  A map with the three zone keys: the values of the older deprecated key are those of
  the canonical key in another order, and the key is removed; the values of the newer
  deprecated key differ in one element, and the key stays beside the canonical key.
\<close>

theorem filterDeprecatedLabels_deprecated_witness:
  "filterDeprecatedLabels
     [(''failure-domain.beta.kubernetes.io/zone'', Some [''b'', ''a'']),
      (''topology.kubernetes.io/zone'', Some [''a'', ''b'']),
      (''failure-domain.kubernetes.io/zone'', Some [''c'', ''a''])] =
     [(''topology.kubernetes.io/zone'', Some [''a'', ''b'']),
      (''failure-domain.kubernetes.io/zone'', Some [''a'', ''c''])] \<and>
   ''failure-domain.beta.kubernetes.io/zone'' \<notin> fst ` set (filterDeprecatedLabels
     [(''failure-domain.beta.kubernetes.io/zone'', Some [''b'', ''a'']),
      (''topology.kubernetes.io/zone'', Some [''a'', ''b'']),
      (''failure-domain.kubernetes.io/zone'', Some [''c'', ''a''])]) \<and>
   ''failure-domain.kubernetes.io/zone'' \<in> fst ` set (filterDeprecatedLabels
     [(''failure-domain.beta.kubernetes.io/zone'', Some [''b'', ''a'']),
      (''topology.kubernetes.io/zone'', Some [''a'', ''b'']),
      (''failure-domain.kubernetes.io/zone'', Some [''c'', ''a''])])"
proof -
  let ?m = "[(''failure-domain.beta.kubernetes.io/zone'', Some [''b'', ''a'']),
      (''topology.kubernetes.io/zone'', Some [''a'', ''b'']),
      (''failure-domain.kubernetes.io/zone'', Some [''c'', ''a''])]"
  let ?pairs = "[(''failure-domain.beta.kubernetes.io/zone'', ''topology.kubernetes.io/zone''),
      (''failure-domain.kubernetes.io/zone'', ''topology.kubernetes.io/zone''),
      (''failure-domain.beta.kubernetes.io/region'', ''topology.kubernetes.io/region''),
      (''failure-domain.kubernetes.io/region'', ''topology.kubernetes.io/region'')]"
  have p1: "(''failure-domain.beta.kubernetes.io/zone'', ''topology.kubernetes.io/zone'') \<in> set ?pairs"
    by (simp only: set_simps insert_iff simp_thms)
  have p2: "(''failure-domain.kubernetes.io/zone'', ''topology.kubernetes.io/zone'') \<in> set ?pairs"
    by (simp only: set_simps insert_iff simp_thms)
  have same: "sortStrings (LabelsAt ?m ''failure-domain.beta.kubernetes.io/zone'') =
      sortStrings (LabelsAt ?m ''topology.kubernetes.io/zone'')"
    by code_simp
  have differ: "sortStrings (LabelsAt ?m ''failure-domain.kubernetes.io/zone'') \<noteq>
      sortStrings (LabelsAt ?m ''topology.kubernetes.io/zone'')"
    by code_simp
  have was: "''failure-domain.kubernetes.io/zone'' \<in> fst ` set ?m"
    by code_simp
  have res: "filterDeprecatedLabels ?m =
     [(''topology.kubernetes.io/zone'', Some [''a'', ''b'']),
      (''failure-domain.kubernetes.io/zone'', Some [''a'', ''c''])]"
    by code_simp
  from filterDeprecatedLabels_deprecated [OF p1, of ?m] same
  have gone: "''failure-domain.beta.kubernetes.io/zone'' \<notin> fst ` set (filterDeprecatedLabels ?m)"
    by (simp only: simp_thms)
  from filterDeprecatedLabels_deprecated [OF p2, of ?m] differ was
  have stays: "''failure-domain.kubernetes.io/zone'' \<in> fst ` set (filterDeprecatedLabels ?m)"
    by (simp only: simp_thms)
  from res gone stays show ?thesis by (intro conjI)
qed

section \<open>Properties of the rack membership map\<close>

lemma elems_simps [simp]: "elems None = []" "elems (Some xs) = xs"
  by (simp_all add: elems_def)

lemma len_simps [simp]: "len None = 0" "len (Some xs) = length xs"
  by (simp_all add: len_def)

lemma len_elems: "len v = length (elems v)"
  by (cases v) simp_all

lemma LabelsAt_update:
  "LabelsAt (AList.update k v m) k' = (if k' = k then v else LabelsAt m k')"
  by (simp add: LabelsAt_def update_conv')

lemma keys_update:
  "map fst (AList.update k v m) = (if k \<in> fst ` set m then map fst m else map fst m @ [k])"
  by (simp add: update_keys)

lemma LabelsAt_absent: "k \<notin> fst ` set m \<Longrightarrow> LabelsAt m k = None"
  using map_of_eq_None_iff [of m k] by (simp add: LabelsAt_def)

lemma Contains_key: "Contains m k x \<Longrightarrow> k \<in> fst ` set m"
  by (rule ccontr) (simp add: Contains_def LabelsAt_absent)

lemma keys_Add: "k \<in> fst ` set m \<Longrightarrow> map fst (Add m k x) = map fst m"
  by (simp add: Add_def keys_update)

lemma members_Add:
  "set (elems (LabelsAt (Add m k x) k')) =
     (if k' = k then insert x (set (elems (LabelsAt m k))) else set (elems (LabelsAt m k')))"
proof (cases "Contains m k x")
  case True
  then have "Add m k x = m" by (simp add: Add_def)
  with True show ?thesis by (auto simp: Contains_def)
next
  case False
  then have eq: "Add m k x = AList.update k (Some (elems (LabelsAt m k) @ [x])) m"
    by (simp add: Add_def)
  show ?thesis unfolding eq by (simp add: LabelsAt_update)
qed

lemma len_Add:
  "len (LabelsAt (Add m k x) k') =
     (if k' = k \<and> \<not> Contains m k x then len (LabelsAt m k) + 1 else len (LabelsAt m k'))"
proof (cases "Contains m k x")
  case True
  then show ?thesis by (simp add: Add_def)
next
  case False
  then have eq: "Add m k x = AList.update k (Some (elems (LabelsAt m k) @ [x])) m"
    by (simp add: Add_def)
  show ?thesis unfolding eq using False by (simp add: LabelsAt_update len_elems)
qed

lemma newRackLoop_cases:
  "newRackLoop m i j = m \<or>
   (\<exists>k. map_of m k = None \<and> newRackLoop m i j = AList.update k (Some []) m)"
proof (induction m i j rule: newRackLoop.induct)
  case (1 labels i j)
  show ?case
  proof (cases "j \<le> i")
    case False
    with newRackLoop.simps [of labels i j] show ?thesis by simp
  next
    case True
    show ?thesis
    proof (cases "map_of labels (''rack'' @ formatNat j)")
      case None
      with True newRackLoop.simps [of labels i j]
      have "newRackLoop labels i j = AList.update (''rack'' @ formatNat j) (Some []) labels"
        by (simp add: Let_def)
      with None show ?thesis by blast
    next
      case (Some y)
      with True newRackLoop.simps [of labels i j]
      have "newRackLoop labels i j = newRackLoop labels i (Suc j)" by (simp add: Let_def)
      moreover from 1 [OF True refl] Some
      have "newRackLoop labels i (Suc j) = labels \<or>
        (\<exists>k. map_of labels k = None \<and> newRackLoop labels i (Suc j) = AList.update k (Some []) labels)"
        by simp
      ultimately show ?thesis by simp
    qed
  qed
qed

lemma members_newRackLoop:
  "elems (LabelsAt (newRackLoop m i j) k) = elems (LabelsAt m k)"
  using newRackLoop_cases [of m i j]
  by (auto simp: LabelsAt_update) (simp add: LabelsAt_def)

lemma keys_newRackLoop: "fst ` set m \<subseteq> fst ` set (newRackLoop m i j)"
  using newRackLoop_cases [of m i j] by (force simp: dom_update)

lemma distinct_newRackLoop:
  "distinct (map fst m) \<Longrightarrow> distinct (map fst (newRackLoop m i j))"
  using newRackLoop_cases [of m i j] by (auto simp: distinct_update)

lemma members_minRacksLoop:
  "elems (LabelsAt (minRacksLoop m i n) k) = elems (LabelsAt m k)"
proof (induction m i n rule: minRacksLoop.induct)
  case (1 labels i minRacks)
  then show ?case
    by (subst minRacksLoop.simps) (simp add: members_newRackLoop)
qed

lemma keys_minRacksLoop: "fst ` set m \<subseteq> fst ` set (minRacksLoop m i n)"
proof (induction m i n rule: minRacksLoop.induct)
  case (1 labels i minRacks)
  show ?case
  proof (cases "int i < minRacks")
    case True
    with 1 keys_newRackLoop [of labels i 0]
    have "fst ` set labels \<subseteq> fst ` set (minRacksLoop (newRackLoop labels i 0) (Suc i) minRacks)"
      by blast
    with True show ?thesis by (subst minRacksLoop.simps) simp
  next
    case False
    then show ?thesis by (subst minRacksLoop.simps) simp
  qed
qed

lemma distinct_minRacksLoop:
  "distinct (map fst m) \<Longrightarrow> distinct (map fst (minRacksLoop m i n))"
proof (induction m i n rule: minRacksLoop.induct)
  case (1 labels i minRacks)
  then show ?case
    by (subst minRacksLoop.simps) (simp add: distinct_newRackLoop)
qed

lemma members_defineRacks [simp]:
  "elems (LabelsAt (defineRacks m n) k) = elems (LabelsAt m k)"
  by (simp add: defineRacks_def members_minRacksLoop)

lemma keys_defineRacks: "fst ` set m \<subseteq> fst ` set (defineRacks m n)"
  by (simp add: defineRacks_def keys_minRacksLoop)

lemma distinct_defineRacks:
  "distinct (map fst m) \<Longrightarrow> distinct (map fst (defineRacks m n))"
  by (simp add: defineRacks_def distinct_minRacksLoop)

lemma defineRacks_three:
  "defineRacks [] 3 = [(''rack0'', Some []), (''rack1'', Some []), (''rack2'', Some [])]"
  by code_simp

lemma defineRacks_enough: "n \<le> int (length m) \<Longrightarrow> defineRacks m n = m"
  by (simp add: defineRacks_def)

text \<open>What \<^verbatim>\<open>determinePlacementRack\<close> returns is a candidate with the fewest members.\<close>

lemma determinePlacementRack_Inr:
  assumes "determinePlacementRack validKeys nodes node minRacks m = (Inr rack, m1)"
  shows "m1 = defineRacks m minRacks"
    and "rack \<in> set (candidateRacks validKeys nodes (targetAZ validKeys node) m1)"
    and "\<forall>r\<in>set (candidateRacks validKeys nodes (targetAZ validKeys node) m1).
           len (LabelsAt m1 rack) \<le> len (LabelsAt m1 r)"
proof -
  let ?m = "defineRacks m minRacks"
  let ?c = "candidateRacks validKeys nodes (targetAZ validKeys node) ?m"
  have unf: "determinePlacementRack validKeys nodes node minRacks m =
      (case sort ?c of [] \<Rightarrow> (Inl PanicIndexOutOfRange, ?m)
       | x # rs \<Rightarrow> (Inr (fewestLoop ?m x (sort ?c)), ?m))"
    by (simp only: determinePlacementRack_def Let_def)
  show m1: "m1 = defineRacks m minRacks"
    using assms unfolding unf by (cases "sort ?c") simp_all
  from assms obtain x rs where xs: "sort ?c = x # rs"
    and rack: "rack = fewestLoop ?m x (x # rs)"
    unfolding unf by (cases "sort ?c") auto
  have "set (sort ?c) = insert x (set rs)" by (simp only: xs list.simps)
  then have set: "set ?c = insert x (set rs)" by simp
  from rack have rack': "rack = fewestLoop ?m x rs" by simp
  show "rack \<in> set (candidateRacks validKeys nodes (targetAZ validKeys node) m1)"
    using fewestLoop_min [of ?m x rs] unfolding m1 set rack' by blast
  show "\<forall>r\<in>set (candidateRacks validKeys nodes (targetAZ validKeys node) m1).
           len (LabelsAt m1 rack) \<le> len (LabelsAt m1 r)"
    using fewestLoop_min [of ?m x rs] unfolding m1 set rack' by blast
qed

lemma determinePlacementRack_Inl:
  "determinePlacementRack validKeys nodes node minRacks m = (Inl e, m1) \<Longrightarrow>
   m1 = defineRacks m minRacks"
  by (cases "sort (candidateRacks validKeys nodes (targetAZ validKeys node) (defineRacks m minRacks))")
    (simp_all add: determinePlacementRack_def Let_def)

lemma candidateRacks_keys:
  "set (candidateRacks validKeys nodes az m) \<subseteq> fst ` set m"
  by (auto simp: candidateRacks_def)

section \<open>The order of map iteration\<close>

text \<open>
  The zone scan itself does not depend on the order in which the topology map is
  visited: it looks for any zone label with enough values.
\<close>

lemma zoneScan_order: "set m = set m' \<Longrightarrow> zoneScan arb m = zoneScan arb m'"
  by (simp add: zoneScan_iff)

text \<open>
  C8. \<^verbatim>\<open>determineFailureDomain\<close> is not deterministic: the loop that sets
  \<^verbatim>\<open>targetAZ\<close> in \<^verbatim>\<open>determinePlacementRack\<close> takes the first zone label that
  \<^verbatim>\<open>range\<close> over the labels of the node yields. Four nodes, the first three in zone
  \<open>a\<close>, the fourth with the canonical zone label \<open>a\<close> and the deprecated zone label
  \<open>b\<close>; no topology map in the status, arbiter mode disabled. The labels of the fourth
  node are the same map in both runs. Visited canonical label first, the node is in
  zone \<open>a\<close> and the call returns the \<open>rack\<close> domain; visited deprecated label first,
  the node is in zone \<open>b\<close>, no rack is a candidate, and the call panics.
\<close>

theorem determineFailureDomain_order_dependent:
  "map_of [(''topology.kubernetes.io/zone'', ''a''), (''failure-domain.beta.kubernetes.io/zone'', ''b'')] =
   map_of [(''failure-domain.beta.kubernetes.io/zone'', ''b''), (''topology.kubernetes.io/zone'', ''a'')] \<and>
   fst (determineFailureDomain
     \<lparr>validTopologyLabelKeys = [''topology.kubernetes.io'', ''failure-domain.beta.kubernetes.io''],
      RackTopologyKey = ''topology.rook.io/rack''\<rparr>
     \<lparr>List = Inr
        [\<lparr>Name = ''n0'', Labels = Some [(''topology.kubernetes.io/zone'', ''a'')]\<rparr>,
         \<lparr>Name = ''n1'', Labels = Some [(''topology.kubernetes.io/zone'', ''a'')]\<rparr>,
         \<lparr>Name = ''n2'', Labels = Some [(''topology.kubernetes.io/zone'', ''a'')]\<rparr>,
         \<lparr>Name = ''n3'', Labels = Some
            [(''topology.kubernetes.io/zone'', ''a''), (''failure-domain.beta.kubernetes.io/zone'', ''b'')]\<rparr>],
      Patch = (\<lambda>node newNode. None)\<rparr>
     \<lparr>nodeCount = 0, patched = []\<rparr>
     \<lparr>Spec_FlexibleScaling = False, Spec_Arbiter_Enable = False, Spec_MinimumNodes = 3,
      Status_FailureDomain = '''', Status_NodeTopologies = None\<rparr>) =
     Inr \<lparr>Type = ''rack'', Key = ''topology.rook.io/rack'', Values = [''rack0'', ''rack1'', ''rack2'']\<rparr> \<and>
   fst (determineFailureDomain
     \<lparr>validTopologyLabelKeys = [''topology.kubernetes.io'', ''failure-domain.beta.kubernetes.io''],
      RackTopologyKey = ''topology.rook.io/rack''\<rparr>
     \<lparr>List = Inr
        [\<lparr>Name = ''n0'', Labels = Some [(''topology.kubernetes.io/zone'', ''a'')]\<rparr>,
         \<lparr>Name = ''n1'', Labels = Some [(''topology.kubernetes.io/zone'', ''a'')]\<rparr>,
         \<lparr>Name = ''n2'', Labels = Some [(''topology.kubernetes.io/zone'', ''a'')]\<rparr>,
         \<lparr>Name = ''n3'', Labels = Some
            [(''failure-domain.beta.kubernetes.io/zone'', ''b''), (''topology.kubernetes.io/zone'', ''a'')]\<rparr>],
      Patch = (\<lambda>node newNode. None)\<rparr>
     \<lparr>nodeCount = 0, patched = []\<rparr>
     \<lparr>Spec_FlexibleScaling = False, Spec_Arbiter_Enable = False, Spec_MinimumNodes = 3,
      Status_FailureDomain = '''', Status_NodeTopologies = None\<rparr>) =
     Inl PanicIndexOutOfRange"
proof (intro conjI)
  show "map_of [(''topology.kubernetes.io/zone'', ''a''), (''failure-domain.beta.kubernetes.io/zone'', ''b'')] =
   map_of [(''failure-domain.beta.kubernetes.io/zone'', ''b''), (''topology.kubernetes.io/zone'', ''a'')]"
    by (rule ext) simp
qed code_simp+

text \<open>
  The order shows in the values of a domain that is returned, too. The status holds a
  topology map without rack values; the first node has a rack label \<open>rackA\<close> and is
  in zone \<open>a\<close>, two nodes are in zone \<open>b\<close>, and the fourth node has the canonical
  zone label \<open>a\<close> and the deprecated zone label \<open>b\<close>. Visited canonical label first,
  the fourth node joins \<open>rackA\<close>, which becomes a value of the domain; visited
  deprecated label first, it joins \<open>rack0\<close>.
\<close>

lemma determineFailureDomain_order_dependent_values:
  "fst (determineFailureDomain
     \<lparr>validTopologyLabelKeys =
        [''topology.kubernetes.io'', ''failure-domain.beta.kubernetes.io'', ''topology.rook.io''],
      RackTopologyKey = ''topology.rook.io/rack''\<rparr>
     \<lparr>List = Inr
        [\<lparr>Name = ''n0'', Labels = Some
            [(''topology.rook.io/rack'', ''rackA''), (''topology.kubernetes.io/zone'', ''a'')]\<rparr>,
         \<lparr>Name = ''n1'', Labels = Some [(''topology.kubernetes.io/zone'', ''b'')]\<rparr>,
         \<lparr>Name = ''n2'', Labels = Some [(''topology.kubernetes.io/zone'', ''b'')]\<rparr>,
         \<lparr>Name = ''n3'', Labels = Some
            [(''topology.kubernetes.io/zone'', ''a''), (''failure-domain.beta.kubernetes.io/zone'', ''b'')]\<rparr>],
      Patch = (\<lambda>node newNode. None)\<rparr>
     \<lparr>nodeCount = 0, patched = []\<rparr>
     \<lparr>Spec_FlexibleScaling = False, Spec_Arbiter_Enable = False, Spec_MinimumNodes = 3,
      Status_FailureDomain = '''',
      Status_NodeTopologies = Some [(''topology.kubernetes.io/zone'', Some [''a'', ''b''])]\<rparr>) =
     Inr \<lparr>Type = ''rack'', Key = ''topology.rook.io/rack'', Values = [''rack0'', ''rack1'', ''rackA'']\<rparr> \<and>
   fst (determineFailureDomain
     \<lparr>validTopologyLabelKeys =
        [''topology.kubernetes.io'', ''failure-domain.beta.kubernetes.io'', ''topology.rook.io''],
      RackTopologyKey = ''topology.rook.io/rack''\<rparr>
     \<lparr>List = Inr
        [\<lparr>Name = ''n0'', Labels = Some
            [(''topology.rook.io/rack'', ''rackA''), (''topology.kubernetes.io/zone'', ''a'')]\<rparr>,
         \<lparr>Name = ''n1'', Labels = Some [(''topology.kubernetes.io/zone'', ''b'')]\<rparr>,
         \<lparr>Name = ''n2'', Labels = Some [(''topology.kubernetes.io/zone'', ''b'')]\<rparr>,
         \<lparr>Name = ''n3'', Labels = Some
            [(''failure-domain.beta.kubernetes.io/zone'', ''b''), (''topology.kubernetes.io/zone'', ''a'')]\<rparr>],
      Patch = (\<lambda>node newNode. None)\<rparr>
     \<lparr>nodeCount = 0, patched = []\<rparr>
     \<lparr>Spec_FlexibleScaling = False, Spec_Arbiter_Enable = False, Spec_MinimumNodes = 3,
      Status_FailureDomain = '''',
      Status_NodeTopologies = Some [(''topology.kubernetes.io/zone'', Some [''a'', ''b''])]\<rparr>) =
     Inr \<lparr>Type = ''rack'', Key = ''topology.rook.io/rack'', Values = [''rack0'', ''rack1'']\<rparr>"
  by code_simp

text \<open>
  The key and values of a domain depend on the order as well, where several labels of
  the topology map contain the type: \<^verbatim>\<open>GetKeyValues\<close> takes the first.
\<close>

lemma GetKeyValues_order_dependent:
  "GetKeyValues
     [(''topology.kubernetes.io/zone'', Some [''a'', ''b'', ''c'']),
      (''failure-domain.beta.kubernetes.io/zone'', Some [''a'', ''b'', ''d''])] ''zone'' =
     (''topology.kubernetes.io/zone'', [''a'', ''b'', ''c'']) \<and>
   GetKeyValues
     [(''failure-domain.beta.kubernetes.io/zone'', Some [''a'', ''b'', ''d'']),
      (''topology.kubernetes.io/zone'', Some [''a'', ''b'', ''c''])] ''zone'' =
     (''failure-domain.beta.kubernetes.io/zone'', [''a'', ''b'', ''d''])"
  by code_simp

section \<open>Properties of \<^verbatim>\<open>ensureNodeRacks\<close>\<close>

lemma balanced_iff:
  "balanced m \<longleftrightarrow>
   (\<forall>r1\<in>fst ` set m. \<forall>r2\<in>fst ` set m. len (LabelsAt m r1) \<le> len (LabelsAt m r2) + 1)"
  by (simp add: balanced_def list_all_iff)

lemma rackLabels_none:
  "\<forall>(label, v)\<in>set labels. \<not> strContains label ''rack'' \<Longrightarrow> rackLabels m name labels = m"
  by (induction labels arbitrary: m) auto

lemma existingRacks_none:
  "\<forall>n\<in>set nodes. \<forall>(label, v)\<in>set (nodeLabels n). \<not> strContains label ''rack'' \<Longrightarrow>
   existingRacks m nodes = m"
  by (induction nodes arbitrary: m) (simp_all add: rackLabels_none)

lemma hasRack_Nil [simp]: "\<not> hasRack [] node"
  by (simp add: hasRack_def)

text \<open>One round of the second loop, by its outcome.\<close>

lemma placeNodes_Cons_None:
  assumes "placeNodes d cl nodes minRacks (node # todo) st = (None, st')"
  shows "(hasRack (st_nodeRacks st) node \<and> placeNodes d cl nodes minRacks todo st = (None, st')) \<or>
    (\<not> hasRack (st_nodeRacks st) node \<and>
     (\<exists>rack m1 st2.
        determinePlacementRack (validTopologyLabelKeys d) nodes node minRacks (st_nodeRacks st) =
          (Inr rack, m1) \<and>
        st_nodeRacks st2 = Add m1 rack (Name node) \<and>
        placeNodes d cl nodes minRacks todo st2 = (None, st')))"
proof (cases "hasRack (st_nodeRacks st) node")
  case True
  with assms show ?thesis by simp
next
  case False
  obtain res m1 where det:
    "determinePlacementRack (validTopologyLabelKeys d) nodes node minRacks (st_nodeRacks st) = (res, m1)"
    by (cases "determinePlacementRack (validTopologyLabelKeys d) nodes node minRacks (st_nodeRacks st)")
  show ?thesis
  proof (cases res)
    case (Inl e)
    with assms False det show ?thesis by simp
  next
    case (Inr rack)
    show ?thesis
    proof (cases "Labels node")
      case None
      with assms False det Inr show ?thesis by (simp add: Let_def)
    next
      case (Some labels)
      show ?thesis
      proof (cases "Patch cl node (node\<lparr>Labels := Some (AList.update (RackTopologyKey d) rack labels)\<rparr>)")
        case (Some e)
        with assms False det Inr \<open>Labels node = Some labels\<close> show ?thesis by (simp add: Let_def)
      next
        case None
        let ?st1 = "st\<lparr>st_nodeRacks := Add m1 rack (Name node),
            st_topologyMap :=
              (if \<not> Contains (st_topologyMap st) (RackTopologyKey d) rack
               then Add (st_topologyMap st) (RackTopologyKey d) rack
               else st_topologyMap st)\<rparr>"
        let ?st2 = "?st1\<lparr>st_r := (st_r ?st1)\<lparr>patched := patched (st_r ?st1) @ [(Name node, rack)]\<rparr>\<rparr>"
        from assms False det Inr None \<open>Labels node = Some labels\<close>
        have "placeNodes d cl nodes minRacks todo ?st2 = (None, st')" by (simp add: Let_def)
        moreover have "st_nodeRacks ?st2 = Add m1 rack (Name node)" by simp
        ultimately show ?thesis using False det Inr by blast
      qed
    qed
  qed
qed

text \<open>
  With \<^verbatim>\<open>minRacks\<close> 3, the rack membership map is empty or has three racks or more,
  and a placement leaves three or more.
\<close>

lemma placement_three:
  assumes "determinePlacementRack validKeys nodes node 3 m = (Inr rack, m1)"
    and "distinct (map fst m)" and "m = [] \<or> 3 \<le> length m"
  shows "distinct (map fst m1)" and "3 \<le> length m1" and "rack \<in> fst ` set m1"
    and "map fst (Add m1 rack x) = map fst m1"
    and "balanced m \<Longrightarrow> balanced m1"
proof -
  note det = determinePlacementRack_Inr [OF assms(1)]
  show d1: "distinct (map fst m1)" using assms(2) by (simp add: det(1) distinct_defineRacks)
  from assms(3) show l1: "3 \<le> length m1"
    by (auto simp: det(1) defineRacks_three defineRacks_enough)
  show r1: "rack \<in> fst ` set m1" using det(2) candidateRacks_keys by blast
  show "map fst (Add m1 rack x) = map fst m1" using r1 by (rule keys_Add)
  show "balanced m1" if "balanced m"
  proof (cases "m = []")
    case True
    have "balanced [(''rack0'', Some []), (''rack1'', Some []), (''rack2'', Some [])]"
      by code_simp
    with True show ?thesis by (simp add: det(1) defineRacks_three)
  next
    case False
    with assms(3) that show ?thesis by (simp add: det(1) defineRacks_enough)
  qed
qed

lemma placeNodes_three:
  "placeNodes d cl nodes 3 todo st = (None, st') \<Longrightarrow>
   distinct (map fst (st_nodeRacks st)) \<Longrightarrow>
   st_nodeRacks st = [] \<or> 3 \<le> length (st_nodeRacks st) \<Longrightarrow>
   distinct (map fst (st_nodeRacks st')) \<and>
   (st_nodeRacks st' = [] \<or> 3 \<le> length (st_nodeRacks st')) \<and>
   (3 \<le> length (st_nodeRacks st) \<or> todo \<noteq> [] \<longrightarrow> 3 \<le> length (st_nodeRacks st'))"
proof (induction todo arbitrary: st)
  case Nil
  then show ?case by auto
next
  case (Cons node todo)
  from placeNodes_Cons_None [OF Cons.prems(1)] show ?case
  proof (elim disjE conjE exE)
    assume has: "hasRack (st_nodeRacks st) node"
      and rest: "placeNodes d cl nodes 3 todo st = (None, st')"
    from has have "st_nodeRacks st \<noteq> []" by auto
    with Cons.prems(3) have "3 \<le> length (st_nodeRacks st)" by simp
    with Cons.IH [OF rest Cons.prems(2,3)] show ?thesis by simp
  next
    fix rack m1 st2
    assume det: "determinePlacementRack (validTopologyLabelKeys d) nodes node 3 (st_nodeRacks st) =
        (Inr rack, m1)"
      and st2: "st_nodeRacks st2 = Add m1 rack (Name node)"
      and rest: "placeNodes d cl nodes 3 todo st2 = (None, st')"
    note p = placement_three [OF det Cons.prems(2,3)]
    have keys: "map fst (st_nodeRacks st2) = map fst m1" by (simp add: st2 p(4))
    have d2: "distinct (map fst (st_nodeRacks st2))" by (simp add: keys p(1))
    have "length (st_nodeRacks st2) = length (map fst m1)" by (simp flip: keys)
    with p(2) have l2: "3 \<le> length (st_nodeRacks st2)" by simp
    from Cons.IH [OF rest d2] l2 show ?thesis by simp
  qed
qed

text \<open>Adding a node to a rack with the fewest members keeps the racks balanced.\<close>

lemma balanced_Add:
  assumes "balanced m" and "rack \<in> fst ` set m"
    and "\<forall>r\<in>fst ` set m. len (LabelsAt m rack) \<le> len (LabelsAt m r)"
  shows "balanced (Add m rack x)"
proof -
  have keys: "fst ` set (Add m rack x) = fst ` set m"
    using keys_Add [OF assms(2), of x] by (metis set_map)
  show ?thesis
    unfolding balanced_iff keys
  proof (intro ballI)
    fix r1 r2 assume r: "r1 \<in> fst ` set m" "r2 \<in> fst ` set m"
    with assms(1) [unfolded balanced_iff]
    have b: "len (LabelsAt m r1) \<le> len (LabelsAt m r2) + 1" by blast
    from assms(3) r have least: "len (LabelsAt m rack) \<le> len (LabelsAt m r1)"
      "len (LabelsAt m rack) \<le> len (LabelsAt m r2)" by blast+
    from b least show "len (LabelsAt (Add m rack x) r1) \<le> len (LabelsAt (Add m rack x) r2) + 1"
      by (auto simp: len_Add)
  qed
qed

lemma placeNodes_balanced:
  "placeNodes d cl nodes 3 todo st = (None, st') \<Longrightarrow>
   distinct (map fst (st_nodeRacks st)) \<Longrightarrow>
   st_nodeRacks st = [] \<or> 3 \<le> length (st_nodeRacks st) \<Longrightarrow>
   balanced (st_nodeRacks st) \<Longrightarrow>
   unrestricted (validTopologyLabelKeys d) nodes 3 todo (st_nodeRacks st) \<Longrightarrow>
   balanced (st_nodeRacks st')"
proof (induction todo arbitrary: st)
  case Nil
  then show ?case by auto
next
  case (Cons node todo)
  from placeNodes_Cons_None [OF Cons.prems(1)] show ?case
  proof (elim disjE conjE exE)
    assume has: "hasRack (st_nodeRacks st) node"
      and rest: "placeNodes d cl nodes 3 todo st = (None, st')"
    from has Cons.prems(5)
    have "unrestricted (validTopologyLabelKeys d) nodes 3 todo (st_nodeRacks st)" by simp
    with Cons.IH [OF rest Cons.prems(2,3,4)] show ?thesis by simp
  next
    fix rack m1 st2
    assume nohas: "\<not> hasRack (st_nodeRacks st) node"
      and det: "determinePlacementRack (validTopologyLabelKeys d) nodes node 3 (st_nodeRacks st) =
        (Inr rack, m1)"
      and st2: "st_nodeRacks st2 = Add m1 rack (Name node)"
      and rest: "placeNodes d cl nodes 3 todo st2 = (None, st')"
    note p = placement_three [OF det Cons.prems(2,3)]
    note q = determinePlacementRack_Inr [OF det]
    from nohas det Cons.prems(5)
    have all: "\<forall>r\<in>fst ` set m1. r \<in> set (candidateRacks (validTopologyLabelKeys d) nodes
          (targetAZ (validTopologyLabelKeys d) node) m1)"
      and unr: "unrestricted (validTopologyLabelKeys d) nodes 3 todo (st_nodeRacks st2)"
      by (simp_all add: q(1) st2 list_all_iff)
    from all q(3) have least: "\<forall>r\<in>fst ` set m1. len (LabelsAt m1 rack) \<le> len (LabelsAt m1 r)"
      by blast
    have b2: "balanced (st_nodeRacks st2)"
      unfolding st2 by (rule balanced_Add [OF p(5) [OF Cons.prems(4)] p(3) least])
    have keys: "map fst (st_nodeRacks st2) = map fst m1" by (simp add: st2 p(4))
    have d2: "distinct (map fst (st_nodeRacks st2))" by (simp add: keys p(1))
    have "length (st_nodeRacks st2) = length (map fst m1)" by (simp flip: keys)
    with p(2) have l2: "st_nodeRacks st2 = [] \<or> 3 \<le> length (st_nodeRacks st2)" by simp
    from Cons.IH [OF rest d2 l2 b2 unr] show ?thesis .
  qed
qed

text \<open>Nodes without a zone are never restricted.\<close>

lemma unrestricted_no_zone:
  "\<forall>n\<in>set todo. targetAZ validKeys n = '''' \<Longrightarrow> unrestricted validKeys nodes minRacks todo m"
proof (induction todo arbitrary: m)
  case Nil
  show ?case by simp
next
  case (Cons node todo)
  then show ?case
    by (auto simp: candidateRacks_def list_all_iff split: sum.splits)
qed

text \<open>The zone of a node, when known, is the value of one of its zone labels.\<close>

lemma targetAZLoop_value:
  "targetAZLoop validKeys labels az = z \<Longrightarrow>
   z = az \<or> (\<exists>(label, v)\<in>set labels. zoneLabel validKeys label \<and> v = z)"
proof (induction labels arbitrary: az)
  case Nil
  then show ?case by simp
next
  case (Cons p labels)
  obtain label v where p: "p = (label, v)" by (cases p)
  let ?az = "if zoneLabel validKeys label then v else az"
  show ?case
  proof (cases "?az \<noteq> ''''")
    case True
    with Cons.prems p have "z = ?az" by (simp add: Let_def)
    with p show ?thesis by (auto split: if_splits)
  next
    case False
    with Cons.prems p have "targetAZLoop validKeys labels ?az = z" by (simp add: Let_def)
    from Cons.IH [OF this] p show ?thesis by (auto split: if_splits)
  qed
qed

lemma targetAZ_label:
  "targetAZ validKeys n \<noteq> '''' \<Longrightarrow>
   \<exists>(label, v)\<in>set (nodeLabels n). zoneLabel validKeys label \<and> v = targetAZ validKeys n"
  using targetAZLoop_value [of validKeys "nodeLabels n" "''''" "targetAZ validKeys n"]
  by (auto simp: targetAZ_def)

lemma memberInZone_member:
  assumes "n \<in> set nodes" and "\<forall>n\<in>set nodes. targetAZ validKeys n = z" and "z \<noteq> ''''"
  shows "memberInZone validKeys nodes z (Name n)"
proof -
  from assms(1) obtain nm where f: "find (\<lambda>n'. Name n' = Name n) nodes = Some nm"
    by (cases "find (\<lambda>n'. Name n' = Name n) nodes") (auto simp: find_None_iff)
  then have "nm \<in> set nodes" by (auto simp: find_Some_iff)
  with assms(2,3) have "targetAZ validKeys nm = z" "targetAZ validKeys nm \<noteq> ''''" by simp_all
  with targetAZ_label [of validKeys nm]
  have "\<exists>(label, v)\<in>set (nodeLabels nm). zoneLabel validKeys label \<and> v = z" by simp
  then have "list_ex (\<lambda>(label, v).
            list_ex (\<lambda>key. strContains label key \<and> strContains label ''zone'' \<and> v = z)
              validKeys) (nodeLabels nm)"
    by (auto simp: list_ex_iff zoneLabel_def)
  with f show ?thesis by (simp add: memberInZone_def)
qed

text \<open>Nodes that are all in one zone are never restricted.\<close>

lemma unrestricted_one_zone:
  assumes zone: "\<forall>n\<in>set nodes. targetAZ validKeys n = z" and z: "z \<noteq> ''''"
  shows "set todo \<subseteq> set nodes \<Longrightarrow>
    \<forall>rack. set (elems (LabelsAt m rack)) \<subseteq> Name ` set nodes \<Longrightarrow>
    unrestricted validKeys nodes minRacks todo m"
proof (induction todo arbitrary: m)
  case Nil
  show ?case by simp
next
  case (Cons node todo)
  from Cons.prems(1) have node: "node \<in> set nodes" and todo: "set todo \<subseteq> set nodes" by simp_all
  let ?m1 = "defineRacks m minRacks"
  have cand: "rack \<in> set (candidateRacks validKeys nodes (targetAZ validKeys node) ?m1)"
    if "rack \<in> fst ` set ?m1" for rack
  proof (cases "len (LabelsAt ?m1 rack) = 0")
    case True
    with that z zone node show ?thesis by (simp add: candidateRacks_def)
  next
    case False
    then obtain x where x: "x \<in> set (elems (LabelsAt ?m1 rack))"
      by (cases "elems (LabelsAt ?m1 rack)") (auto simp: len_elems)
    with Cons.prems(2) obtain n where "n \<in> set nodes" "x = Name n" by auto
    with memberInZone_member [OF _ zone z] x
    have "validRack validKeys nodes z (elems (LabelsAt ?m1 rack))"
      by (auto simp: validRack_def list_ex_iff)
    with that z zone node show ?thesis by (simp add: candidateRacks_def)
  qed
  show ?case
  proof (cases "hasRack m node")
    case True
    with Cons.IH [OF todo Cons.prems(2)] show ?thesis by simp
  next
    case False
    have rest: "unrestricted validKeys nodes minRacks todo (Add m1 rack (Name node))"
      if "determinePlacementRack validKeys nodes node minRacks m = (Inr rack, m1)" for rack m1
    proof -
      from determinePlacementRack_Inr(1) [OF that] Cons.prems(2) node
      have "\<forall>rack'. set (elems (LabelsAt (Add m1 rack (Name node)) rack')) \<subseteq> Name ` set nodes"
        by (auto simp: members_Add)
      from Cons.IH [OF todo this] show ?thesis .
    qed
    from False cand rest show ?thesis
      by (auto simp: list_all_iff split: sum.splits)
  qed
qed

text \<open>
  C7, as the code has it. For a list of one node or more, none with a label whose key
  contains \<^verbatim>\<open>"rack"\<close>, and \<^verbatim>\<open>minRacks\<close> 3: when \<^verbatim>\<open>ensureNodeRacks\<close> returns without an
  error, the rack membership map has three distinct racks or more; and when no zone
  constraint has restricted the candidate racks, no rack has more than one member more
  than another. (Racks are defined when the first node is placed: with no node at all
  no rack exists.)
\<close>

theorem ensureNodeRacks_balanced:
  assumes "\<forall>n\<in>set nodes. \<forall>(label, v)\<in>set (nodeLabels n). \<not> strContains label ''rack''"
    and "nodes \<noteq> []"
    and "ensureNodeRacks d cl r nodes 3 topologyMap = (None, st)"
  shows "distinct (map fst (st_nodeRacks st)) \<and> 3 \<le> length (st_nodeRacks st) \<and>
    (unrestricted (validTopologyLabelKeys d) nodes 3 nodes NewNodeTopologyMap \<longrightarrow>
     balanced (st_nodeRacks st))"
proof -
  let ?st0 = "\<lparr>st_nodeRacks = [], st_topologyMap = topologyMap, st_r = r\<rparr>"
  from assms(1) have "existingRacks NewNodeTopologyMap nodes = []"
    by (simp add: existingRacks_none NewNodeTopologyMap_def)
  with assms(3) have run: "placeNodes d cl nodes 3 nodes ?st0 = (None, st)"
    by (simp add: ensureNodeRacks_def)
  have d0: "distinct (map fst (st_nodeRacks ?st0))"
    and l0: "st_nodeRacks ?st0 = [] \<or> 3 \<le> length (st_nodeRacks ?st0)"
    and b0: "balanced (st_nodeRacks ?st0)"
    by (simp_all add: balanced_def)
  from placeNodes_three [OF run d0 l0] assms(2)
  have "distinct (map fst (st_nodeRacks st))" and "3 \<le> length (st_nodeRacks st)" by simp_all
  moreover have "balanced (st_nodeRacks st)"
    if "unrestricted (validTopologyLabelKeys d) nodes 3 nodes NewNodeTopologyMap"
    using placeNodes_balanced [OF run d0 l0 b0] that by (simp add: NewNodeTopologyMap_def)
  ultimately show ?thesis by blast
qed

text \<open>
  Five nodes without zone or rack labels: the racks get two, two and one node.
\<close>

theorem ensureNodeRacks_balanced_witness:
  "st_nodeRacks (snd (ensureNodeRacks
     \<lparr>validTopologyLabelKeys = [''topology.kubernetes.io''], RackTopologyKey = ''topology.rook.io/rack''\<rparr>
     \<lparr>List = Inr [], Patch = (\<lambda>node newNode. None)\<rparr>
     \<lparr>nodeCount = 0, patched = []\<rparr>
     [\<lparr>Name = ''n0'', Labels = Some [(''kubernetes.io/hostname'', ''n0'')]\<rparr>,
      \<lparr>Name = ''n1'', Labels = Some [(''kubernetes.io/hostname'', ''n1'')]\<rparr>,
      \<lparr>Name = ''n2'', Labels = Some [(''kubernetes.io/hostname'', ''n2'')]\<rparr>,
      \<lparr>Name = ''n3'', Labels = Some [(''kubernetes.io/hostname'', ''n3'')]\<rparr>,
      \<lparr>Name = ''n4'', Labels = Some [(''kubernetes.io/hostname'', ''n4'')]\<rparr>]
     3 [])) =
     [(''rack0'', Some [''n0'', ''n3'']), (''rack1'', Some [''n1'', ''n4'']), (''rack2'', Some [''n2''])] \<and>
   balanced
     [(''rack0'', Some [''n0'', ''n3'']), (''rack1'', Some [''n1'', ''n4'']), (''rack2'', Some [''n2''])]"
proof -
  let ?d = "\<lparr>validTopologyLabelKeys = [''topology.kubernetes.io''], RackTopologyKey = ''topology.rook.io/rack''\<rparr>"
  let ?cl = "\<lparr>List = Inr [], Patch = (\<lambda>node newNode. None)\<rparr>"
  let ?r = "\<lparr>nodeCount = 0, patched = []\<rparr>"
  let ?nodes = "[\<lparr>Name = ''n0'', Labels = Some [(''kubernetes.io/hostname'', ''n0'')]\<rparr>,
      \<lparr>Name = ''n1'', Labels = Some [(''kubernetes.io/hostname'', ''n1'')]\<rparr>,
      \<lparr>Name = ''n2'', Labels = Some [(''kubernetes.io/hostname'', ''n2'')]\<rparr>,
      \<lparr>Name = ''n3'', Labels = Some [(''kubernetes.io/hostname'', ''n3'')]\<rparr>,
      \<lparr>Name = ''n4'', Labels = Some [(''kubernetes.io/hostname'', ''n4'')]\<rparr>]"
  let ?racks = "[(''rack0'', Some [''n0'', ''n3'']), (''rack1'', Some [''n1'', ''n4'']),
      (''rack2'', Some [''n2''])]"
  let ?st = "\<lparr>st_nodeRacks = ?racks,
      st_topologyMap = [(''topology.rook.io/rack'', Some [''rack0'', ''rack1'', ''rack2''])],
      st_r = \<lparr>nodeCount = 0, patched = [(''n0'', ''rack0''), (''n1'', ''rack1''), (''n2'', ''rack2''),
        (''n3'', ''rack0''), (''n4'', ''rack1'')]\<rparr>\<rparr>"
  have h1: "\<forall>n\<in>set ?nodes. \<forall>(label, v)\<in>set (nodeLabels n). \<not> strContains label ''rack''"
    by code_simp
  have h2: "?nodes \<noteq> []" by simp
  have h3: "ensureNodeRacks ?d ?cl ?r ?nodes 3 [] = (None, ?st)" by code_simp
  have h4: "unrestricted (validTopologyLabelKeys ?d) ?nodes 3 ?nodes NewNodeTopologyMap" by code_simp
  from ensureNodeRacks_balanced [OF h1 h2 h3] h4
  have "balanced (st_nodeRacks ?st)" by blast
  with h3 show ?thesis by simp
qed

text \<open>
  C7 as stated fails for the empty node list: \<^verbatim>\<open>ensureNodeRacks\<close> returns without an
  error and the rack membership map has no rack.
\<close>

theorem ensureNodeRacks_no_nodes:
  "ensureNodeRacks
     \<lparr>validTopologyLabelKeys = [''topology.kubernetes.io''], RackTopologyKey = ''topology.rook.io/rack''\<rparr>
     \<lparr>List = Inr [], Patch = (\<lambda>node newNode. None)\<rparr>
     \<lparr>nodeCount = 0, patched = []\<rparr> [] 3 [] =
   (None, \<lparr>st_nodeRacks = [], st_topologyMap = [], st_r = \<lparr>nodeCount = 0, patched = []\<rparr>\<rparr>)"
  by code_simp

lemma zoneConsistent_iff:
  "zoneConsistent validKeys nodes m \<longleftrightarrow>
   (\<forall>rack. \<forall>nx\<in>set nodes. \<forall>ny\<in>set nodes.
      Name nx \<in> set (elems (LabelsAt m rack)) \<longrightarrow>
      Name ny \<in> set (elems (LabelsAt m rack)) \<longrightarrow>
      targetAZ validKeys nx \<noteq> '''' \<longrightarrow> targetAZ validKeys ny \<noteq> '''' \<longrightarrow>
      targetAZ validKeys nx = targetAZ validKeys ny)"
  (is "?l \<longleftrightarrow> ?r")
proof
  assume ?r
  then show ?l unfolding zoneConsistent_def list_all_iff by blast
next
  assume l: ?l
  show ?r
  proof (intro allI ballI impI)
    fix rack nx ny
    assume n: "nx \<in> set nodes" "ny \<in> set nodes"
      and mem: "Name nx \<in> set (elems (LabelsAt m rack))" "Name ny \<in> set (elems (LabelsAt m rack))"
      and z: "targetAZ validKeys nx \<noteq> ''''" "targetAZ validKeys ny \<noteq> ''''"
    from mem(1) have "rack \<in> fst ` set m"
      using LabelsAt_absent [of rack m] by (cases "rack \<in> fst ` set m") auto
    then have "rack \<in> set (map fst m)" by simp
    with l n mem z show "targetAZ validKeys nx = targetAZ validKeys ny"
      unfolding zoneConsistent_def list_all_iff by blast
  qed
qed

text \<open>A member that makes a rack valid for a zone is a node of the list with a zone label of that value.\<close>

lemma memberInZone_node:
  assumes "memberInZone validKeys nodes az x"
  shows "\<exists>nm\<in>set nodes. Name nm = x \<and>
           (\<exists>(label, v)\<in>set (nodeLabels nm). zoneLabel validKeys label \<and> v = az)"
proof -
  from assms obtain nm where f: "find (\<lambda>n. Name n = x) nodes = Some nm"
    and ex: "list_ex (\<lambda>(label, v).
            list_ex (\<lambda>key. strContains label key \<and> strContains label ''zone'' \<and> v = az)
              validKeys) (nodeLabels nm)"
    by (auto simp: memberInZone_def split: option.splits)
  from f have "nm \<in> set nodes" "Name nm = x"
    by (auto simp: find_Some_iff)
  moreover from ex have "\<exists>(label, v)\<in>set (nodeLabels nm). zoneLabel validKeys label \<and> v = az"
    by (auto simp: list_ex_iff zoneLabel_def)
  ultimately show ?thesis by blast
qed

text \<open>
  A candidate rack for a node whose zone is known is empty, or has a member with a zone
  label of that value.
\<close>

lemma candidateRacks_zone:
  assumes "rack \<in> set (candidateRacks validKeys nodes az m)" and "az \<noteq> ''''"
  shows "len (LabelsAt m rack) = 0 \<or>
    (\<exists>nm\<in>set nodes. Name nm \<in> set (elems (LabelsAt m rack)) \<and>
       (\<exists>(label, v)\<in>set (nodeLabels nm). zoneLabel validKeys label \<and> v = az))"
proof -
  from assms have "len (LabelsAt m rack) = 0 \<or> validRack validKeys nodes az (elems (LabelsAt m rack))"
    by (auto simp: candidateRacks_def Let_def)
  then show ?thesis
  proof
    assume "validRack validKeys nodes az (elems (LabelsAt m rack))"
    then obtain x where x: "x \<in> set (elems (LabelsAt m rack))" "memberInZone validKeys nodes az x"
      by (auto simp: validRack_def list_ex_iff)
    from memberInZone_node [OF x(2)] x(1) show ?thesis by blast
  qed simp
qed

lemma zoneConsistent_defineRacks:
  "zoneConsistent validKeys nodes m \<Longrightarrow> zoneConsistent validKeys nodes (defineRacks m n)"
  by (simp add: zoneConsistent_iff)

lemma zoneConsistent_Add:
  assumes z: "zoneConsistent validKeys nodes m"
    and cand: "rack \<in> set (candidateRacks validKeys nodes (targetAZ validKeys node) m)"
    and node: "node \<in> set nodes"
    and names: "distinct (map Name nodes)"
    and single: "\<forall>n\<in>set nodes. \<forall>(label, v)\<in>set (nodeLabels n).
       zoneLabel validKeys label \<longrightarrow> v \<noteq> '''' \<longrightarrow> v = targetAZ validKeys n"
  shows "zoneConsistent validKeys nodes (Add m rack (Name node))"
  unfolding zoneConsistent_iff
proof (intro allI ballI impI)
  fix rack' nx ny
  assume n: "nx \<in> set nodes" "ny \<in> set nodes"
    and memx: "Name nx \<in> set (elems (LabelsAt (Add m rack (Name node)) rack'))"
    and memy: "Name ny \<in> set (elems (LabelsAt (Add m rack (Name node)) rack'))"
    and zx: "targetAZ validKeys nx \<noteq> ''''" and zy: "targetAZ validKeys ny \<noteq> ''''"
  have same: "n = node" if "n \<in> set nodes" "Name n = Name node" for n
    using that node names by (auto simp: distinct_map dest: inj_onD)
  have old: "targetAZ validKeys n = targetAZ validKeys node"
    if "n \<in> set nodes" "Name n \<in> set (elems (LabelsAt m rack))" "targetAZ validKeys n \<noteq> ''''"
      "targetAZ validKeys node \<noteq> ''''" for n
  proof -
    from that(2) have "len (LabelsAt m rack) \<noteq> 0" by (auto simp: len_elems)
    with candidateRacks_zone [OF cand that(4)]
    obtain nm label v where nm: "nm \<in> set nodes" "Name nm \<in> set (elems (LabelsAt m rack))"
      "(label, v) \<in> set (nodeLabels nm)" "zoneLabel validKeys label" "v = targetAZ validKeys node"
      by auto
    with single that(4) have "targetAZ validKeys nm = targetAZ validKeys node" by fastforce
    moreover from z [unfolded zoneConsistent_iff] nm(1,2) that(1,2,3) calculation that(4)
    have "targetAZ validKeys nm = targetAZ validKeys n" by metis
    ultimately show ?thesis by simp
  qed
  show "targetAZ validKeys nx = targetAZ validKeys ny"
  proof (cases "rack' = rack")
    case False
    with memx memy have "Name nx \<in> set (elems (LabelsAt m rack'))"
      "Name ny \<in> set (elems (LabelsAt m rack'))" by (simp_all add: members_Add)
    with z [unfolded zoneConsistent_iff] n zx zy show ?thesis by blast
  next
    case True
    with memx memy have mx: "Name nx = Name node \<or> Name nx \<in> set (elems (LabelsAt m rack))"
      and my: "Name ny = Name node \<or> Name ny \<in> set (elems (LabelsAt m rack))"
      by (simp_all add: members_Add)
    show ?thesis
    proof (cases "Name nx \<in> set (elems (LabelsAt m rack))")
      case oldx: True
      show ?thesis
      proof (cases "Name ny \<in> set (elems (LabelsAt m rack))")
        case True
        with z [unfolded zoneConsistent_iff] oldx n zx zy show ?thesis by blast
      next
        case False
        with my same n(2) have "ny = node" by blast
        with old [OF n(1) oldx zx] zy show ?thesis by simp
      qed
    next
      case False
      with mx same n(1) have nx: "nx = node" by blast
      show ?thesis
      proof (cases "Name ny \<in> set (elems (LabelsAt m rack))")
        case True
        from old [OF n(2) True zy] zx nx show ?thesis by simp
      next
        case False
        with my same n(2) have "ny = node" by blast
        with nx show ?thesis by simp
      qed
    qed
  qed
qed

text \<open>One round of the second loop, whatever its outcome.\<close>

lemma placeNodes_Cons_cases:
  assumes "placeNodes d cl nodes minRacks (node # todo) st = (e, st')"
  shows "(hasRack (st_nodeRacks st) node \<and> placeNodes d cl nodes minRacks todo st = (e, st')) \<or>
    (\<not> hasRack (st_nodeRacks st) node \<and>
     (\<exists>err m1.
        determinePlacementRack (validTopologyLabelKeys d) nodes node minRacks (st_nodeRacks st) =
          (Inl err, m1) \<and> st_nodeRacks st' = m1)) \<or>
    (\<not> hasRack (st_nodeRacks st) node \<and>
     (\<exists>rack m1.
        determinePlacementRack (validTopologyLabelKeys d) nodes node minRacks (st_nodeRacks st) =
          (Inr rack, m1) \<and>
        (st_nodeRacks st' = Add m1 rack (Name node) \<or>
         (\<exists>st2. st_nodeRacks st2 = Add m1 rack (Name node) \<and>
            placeNodes d cl nodes minRacks todo st2 = (e, st')))))"
proof (cases "hasRack (st_nodeRacks st) node")
  case True
  with assms show ?thesis by simp
next
  case False
  obtain res m1 where det:
    "determinePlacementRack (validTopologyLabelKeys d) nodes node minRacks (st_nodeRacks st) = (res, m1)"
    by (cases "determinePlacementRack (validTopologyLabelKeys d) nodes node minRacks (st_nodeRacks st)")
  show ?thesis
  proof (cases res)
    case (Inl err)
    with assms False det have "st_nodeRacks st' = m1" by auto
    with False det Inl show ?thesis by blast
  next
    case (Inr rack)
    let ?st1 = "st\<lparr>st_nodeRacks := Add m1 rack (Name node),
        st_topologyMap :=
          (if \<not> Contains (st_topologyMap st) (RackTopologyKey d) rack
           then Add (st_topologyMap st) (RackTopologyKey d) rack
           else st_topologyMap st)\<rparr>"
    show ?thesis
    proof (cases "Labels node")
      case None
      with assms False det Inr have "st' = ?st1" by (simp add: Let_def)
      then have "st_nodeRacks st' = Add m1 rack (Name node)" by simp
      with False det Inr show ?thesis by blast
    next
      case (Some labels)
      show ?thesis
      proof (cases "Patch cl node (node\<lparr>Labels := Some (AList.update (RackTopologyKey d) rack labels)\<rparr>)")
        case (Some err)
        with assms False det Inr \<open>Labels node = Some labels\<close> have "st' = ?st1"
          by (simp add: Let_def)
        then have "st_nodeRacks st' = Add m1 rack (Name node)" by simp
        with False det Inr show ?thesis by blast
      next
        case None
        let ?st2 = "?st1\<lparr>st_r := (st_r ?st1)\<lparr>patched := patched (st_r ?st1) @ [(Name node, rack)]\<rparr>\<rparr>"
        from assms False det Inr None \<open>Labels node = Some labels\<close>
        have "placeNodes d cl nodes minRacks todo ?st2 = (e, st')" by (simp add: Let_def)
        moreover have "st_nodeRacks ?st2 = Add m1 rack (Name node)" by simp
        ultimately show ?thesis using False det Inr by blast
      qed
    qed
  qed
qed

lemma placeNodes_zoneConsistent:
  assumes names: "distinct (map Name nodes)"
    and single: "\<forall>n\<in>set nodes. \<forall>(label, v)\<in>set (nodeLabels n).
       zoneLabel (validTopologyLabelKeys d) label \<longrightarrow> v \<noteq> '''' \<longrightarrow>
       v = targetAZ (validTopologyLabelKeys d) n"
  shows "placeNodes d cl nodes minRacks todo st = (e, st') \<Longrightarrow> set todo \<subseteq> set nodes \<Longrightarrow>
    zoneConsistent (validTopologyLabelKeys d) nodes (st_nodeRacks st) \<Longrightarrow>
    zoneConsistent (validTopologyLabelKeys d) nodes (st_nodeRacks st')"
proof (induction todo arbitrary: st)
  case Nil
  then show ?case by simp
next
  case (Cons node todo)
  from Cons.prems(2) have node: "node \<in> set nodes" and todo: "set todo \<subseteq> set nodes" by simp_all
  from placeNodes_Cons_cases [OF Cons.prems(1)] show ?case
  proof (elim disjE conjE exE)
    assume "placeNodes d cl nodes minRacks todo st = (e, st')"
    from Cons.IH [OF this todo Cons.prems(3)] show ?thesis .
  next
    fix err m1
    assume "determinePlacementRack (validTopologyLabelKeys d) nodes node minRacks (st_nodeRacks st) =
        (Inl err, m1)" and st': "st_nodeRacks st' = m1"
    from determinePlacementRack_Inl [OF this(1)] st' Cons.prems(3) show ?thesis
      by (simp add: zoneConsistent_defineRacks)
  next
    fix rack m1
    assume det: "determinePlacementRack (validTopologyLabelKeys d) nodes node minRacks (st_nodeRacks st) =
        (Inr rack, m1)"
      and st': "st_nodeRacks st' = Add m1 rack (Name node)"
    note q = determinePlacementRack_Inr [OF det]
    from Cons.prems(3) have "zoneConsistent (validTopologyLabelKeys d) nodes m1"
      by (simp add: q(1) zoneConsistent_defineRacks)
    from zoneConsistent_Add [OF this q(2) node names single] st' show ?thesis by simp
  next
    fix rack m1 st2
    assume det: "determinePlacementRack (validTopologyLabelKeys d) nodes node minRacks (st_nodeRacks st) =
        (Inr rack, m1)"
      and st2: "st_nodeRacks st2 = Add m1 rack (Name node)"
      and rest: "placeNodes d cl nodes minRacks todo st2 = (e, st')"
    note q = determinePlacementRack_Inr [OF det]
    from Cons.prems(3) have "zoneConsistent (validTopologyLabelKeys d) nodes m1"
      by (simp add: q(1) zoneConsistent_defineRacks)
    from zoneConsistent_Add [OF this q(2) node names single] st2
    have "zoneConsistent (validTopologyLabelKeys d) nodes (st_nodeRacks st2)" by simp
    from Cons.IH [OF rest todo this] show ?thesis .
  qed
qed

text \<open>
  C2, as the code has it. For a list of nodes with distinct names, none with a label
  whose key contains \<^verbatim>\<open>"rack"\<close>, each with at most one zone value (every zone label of
  the node that is not empty has the value that \<^verbatim>\<open>determinePlacementRack\<close> takes as the
  zone of the node), and however \<^verbatim>\<open>ensureNodeRacks\<close> ends: no rack of the rack
  membership map holds two nodes whose zones are known and differ. A rack is returned
  for a node with a known zone only if the rack is empty or a member of it is in that
  zone; for a node with no known zone every rack is a candidate.
\<close>

theorem ensureNodeRacks_zoneConsistent:
  assumes "distinct (map Name nodes)"
    and "\<forall>n\<in>set nodes. \<forall>(label, v)\<in>set (nodeLabels n). \<not> strContains label ''rack''"
    and "\<forall>n\<in>set nodes. \<forall>(label, v)\<in>set (nodeLabels n).
       zoneLabel (validTopologyLabelKeys d) label \<longrightarrow> v \<noteq> '''' \<longrightarrow>
       v = targetAZ (validTopologyLabelKeys d) n"
    and "ensureNodeRacks d cl r nodes minRacks topologyMap = (e, st)"
  shows "zoneConsistent (validTopologyLabelKeys d) nodes (st_nodeRacks st) \<and>
    (\<forall>node m rack m1.
       determinePlacementRack (validTopologyLabelKeys d) nodes node minRacks m = (Inr rack, m1) \<longrightarrow>
       targetAZ (validTopologyLabelKeys d) node \<noteq> '''' \<longrightarrow>
       len (LabelsAt m1 rack) = 0 \<or>
       (\<exists>nm\<in>set nodes. Name nm \<in> set (elems (LabelsAt m1 rack)) \<and>
          targetAZ (validTopologyLabelKeys d) nm = targetAZ (validTopologyLabelKeys d) node)) \<and>
    (\<forall>node m. targetAZ (validTopologyLabelKeys d) node = '''' \<longrightarrow>
       candidateRacks (validTopologyLabelKeys d) nodes
         (targetAZ (validTopologyLabelKeys d) node) m = map fst m)"
proof (intro conjI allI impI)
  let ?st0 = "\<lparr>st_nodeRacks = [], st_topologyMap = topologyMap, st_r = r\<rparr>"
  from assms(2) have "existingRacks NewNodeTopologyMap nodes = []"
    by (simp add: existingRacks_none NewNodeTopologyMap_def)
  with assms(4) have run: "placeNodes d cl nodes minRacks nodes ?st0 = (e, st)"
    by (simp add: ensureNodeRacks_def)
  have "zoneConsistent (validTopologyLabelKeys d) nodes (st_nodeRacks ?st0)"
    by (simp add: zoneConsistent_def)
  from placeNodes_zoneConsistent [OF assms(1,3) run subset_refl this]
  show "zoneConsistent (validTopologyLabelKeys d) nodes (st_nodeRacks st)" .
next
  fix node m rack m1
  assume det: "determinePlacementRack (validTopologyLabelKeys d) nodes node minRacks m = (Inr rack, m1)"
    and az: "targetAZ (validTopologyLabelKeys d) node \<noteq> ''''"
  from candidateRacks_zone [OF determinePlacementRack_Inr(2) [OF det] az]
  show "len (LabelsAt m1 rack) = 0 \<or>
       (\<exists>nm\<in>set nodes. Name nm \<in> set (elems (LabelsAt m1 rack)) \<and>
          targetAZ (validTopologyLabelKeys d) nm = targetAZ (validTopologyLabelKeys d) node)"
  proof
    assume "\<exists>nm\<in>set nodes. Name nm \<in> set (elems (LabelsAt m1 rack)) \<and>
       (\<exists>(label, v)\<in>set (nodeLabels nm). zoneLabel (validTopologyLabelKeys d) label \<and>
          v = targetAZ (validTopologyLabelKeys d) node)"
    then obtain nm label v where nm: "nm \<in> set nodes" "Name nm \<in> set (elems (LabelsAt m1 rack))"
      "(label, v) \<in> set (nodeLabels nm)" "zoneLabel (validTopologyLabelKeys d) label"
      "v = targetAZ (validTopologyLabelKeys d) node"
      by auto
    with assms(3) az have "targetAZ (validTopologyLabelKeys d) nm = targetAZ (validTopologyLabelKeys d) node"
      by fastforce
    with nm(1,2) show ?thesis by blast
  qed simp
next
  fix node m
  assume "targetAZ (validTopologyLabelKeys d) node = ''''"
  then show "candidateRacks (validTopologyLabelKeys d) nodes
         (targetAZ (validTopologyLabelKeys d) node) m = map fst m"
    by (simp add: candidateRacks_def)
qed

text \<open>
  Six nodes in the zones \<open>a\<close>, \<open>b\<close>, \<open>a\<close>, \<open>b\<close>, \<open>a\<close>, \<open>b\<close>: the nodes of zone \<open>a\<close>
  share the first and the third rack, the nodes of zone \<open>b\<close> the second.
\<close>

theorem ensureNodeRacks_zoneConsistent_witness:
  "ensureNodeRacks
     \<lparr>validTopologyLabelKeys = [''topology.kubernetes.io''], RackTopologyKey = ''topology.rook.io/rack''\<rparr>
     \<lparr>List = Inr [], Patch = (\<lambda>node newNode. None)\<rparr>
     \<lparr>nodeCount = 0, patched = []\<rparr>
     [\<lparr>Name = ''n0'', Labels = Some [(''topology.kubernetes.io/zone'', ''a'')]\<rparr>,
      \<lparr>Name = ''n1'', Labels = Some [(''topology.kubernetes.io/zone'', ''b'')]\<rparr>,
      \<lparr>Name = ''n2'', Labels = Some [(''topology.kubernetes.io/zone'', ''a'')]\<rparr>,
      \<lparr>Name = ''n3'', Labels = Some [(''topology.kubernetes.io/zone'', ''b'')]\<rparr>,
      \<lparr>Name = ''n4'', Labels = Some [(''topology.kubernetes.io/zone'', ''a'')]\<rparr>,
      \<lparr>Name = ''n5'', Labels = Some [(''topology.kubernetes.io/zone'', ''b'')]\<rparr>]
     3 [] =
     (None,
      \<lparr>st_nodeRacks =
         [(''rack0'', Some [''n0'', ''n4'']), (''rack1'', Some [''n1'', ''n3'', ''n5'']),
          (''rack2'', Some [''n2''])],
       st_topologyMap = [(''topology.rook.io/rack'', Some [''rack0'', ''rack1'', ''rack2''])],
       st_r = \<lparr>nodeCount = 0, patched = [(''n0'', ''rack0''), (''n1'', ''rack1''), (''n2'', ''rack2''),
         (''n3'', ''rack1''), (''n4'', ''rack0''), (''n5'', ''rack1'')]\<rparr>\<rparr>) \<and>
   zoneConsistent [''topology.kubernetes.io'']
     [\<lparr>Name = ''n0'', Labels = Some [(''topology.kubernetes.io/zone'', ''a'')]\<rparr>,
      \<lparr>Name = ''n1'', Labels = Some [(''topology.kubernetes.io/zone'', ''b'')]\<rparr>,
      \<lparr>Name = ''n2'', Labels = Some [(''topology.kubernetes.io/zone'', ''a'')]\<rparr>,
      \<lparr>Name = ''n3'', Labels = Some [(''topology.kubernetes.io/zone'', ''b'')]\<rparr>,
      \<lparr>Name = ''n4'', Labels = Some [(''topology.kubernetes.io/zone'', ''a'')]\<rparr>,
      \<lparr>Name = ''n5'', Labels = Some [(''topology.kubernetes.io/zone'', ''b'')]\<rparr>]
     [(''rack0'', Some [''n0'', ''n4'']), (''rack1'', Some [''n1'', ''n3'', ''n5'']),
      (''rack2'', Some [''n2''])]"
proof -
  let ?d = "\<lparr>validTopologyLabelKeys = [''topology.kubernetes.io''], RackTopologyKey = ''topology.rook.io/rack''\<rparr>"
  let ?cl = "\<lparr>List = Inr [], Patch = (\<lambda>node newNode. None)\<rparr>"
  let ?r = "\<lparr>nodeCount = 0, patched = []\<rparr>"
  let ?nodes = "[\<lparr>Name = ''n0'', Labels = Some [(''topology.kubernetes.io/zone'', ''a'')]\<rparr>,
      \<lparr>Name = ''n1'', Labels = Some [(''topology.kubernetes.io/zone'', ''b'')]\<rparr>,
      \<lparr>Name = ''n2'', Labels = Some [(''topology.kubernetes.io/zone'', ''a'')]\<rparr>,
      \<lparr>Name = ''n3'', Labels = Some [(''topology.kubernetes.io/zone'', ''b'')]\<rparr>,
      \<lparr>Name = ''n4'', Labels = Some [(''topology.kubernetes.io/zone'', ''a'')]\<rparr>,
      \<lparr>Name = ''n5'', Labels = Some [(''topology.kubernetes.io/zone'', ''b'')]\<rparr>]"
  let ?st = "\<lparr>st_nodeRacks =
         [(''rack0'', Some [''n0'', ''n4'']), (''rack1'', Some [''n1'', ''n3'', ''n5'']),
          (''rack2'', Some [''n2''])],
       st_topologyMap = [(''topology.rook.io/rack'', Some [''rack0'', ''rack1'', ''rack2''])],
       st_r = \<lparr>nodeCount = 0, patched = [(''n0'', ''rack0''), (''n1'', ''rack1''), (''n2'', ''rack2''),
         (''n3'', ''rack1''), (''n4'', ''rack0''), (''n5'', ''rack1'')]\<rparr>\<rparr>"
  have h1: "distinct (map Name ?nodes)" by code_simp
  have h2: "\<forall>n\<in>set ?nodes. \<forall>(label, v)\<in>set (nodeLabels n). \<not> strContains label ''rack''"
    by code_simp
  have h3: "\<forall>n\<in>set ?nodes. \<forall>(label, v)\<in>set (nodeLabels n).
       zoneLabel (validTopologyLabelKeys ?d) label \<longrightarrow> v \<noteq> '''' \<longrightarrow>
       v = targetAZ (validTopologyLabelKeys ?d) n"
    by code_simp
  have h4: "ensureNodeRacks ?d ?cl ?r ?nodes 3 [] = (None, ?st)" by code_simp
  from ensureNodeRacks_zoneConsistent [OF h1 h2 h3 h4]
  have "zoneConsistent (validTopologyLabelKeys ?d) ?nodes (st_nodeRacks ?st)" by (rule conjunct1)
  with h4 show ?thesis by simp
qed

text \<open>
  C2 as stated fails where a node carries two zone values. The first node has the
  canonical zone label \<open>a\<close> and the deprecated zone label \<open>b\<close>: its rack is valid for
  both zones, and takes the fourth node, of zone \<open>a\<close>, and the fifth, of zone \<open>b\<close>.
\<close>

theorem ensureNodeRacks_two_zone_labels:
  "st_nodeRacks (snd (ensureNodeRacks
     \<lparr>validTopologyLabelKeys = [''topology.kubernetes.io'', ''failure-domain.beta.kubernetes.io''],
      RackTopologyKey = ''topology.rook.io/rack''\<rparr>
     \<lparr>List = Inr [], Patch = (\<lambda>node newNode. None)\<rparr>
     \<lparr>nodeCount = 0, patched = []\<rparr>
     [\<lparr>Name = ''n0'', Labels = Some
         [(''topology.kubernetes.io/zone'', ''a''), (''failure-domain.beta.kubernetes.io/zone'', ''b'')]\<rparr>,
      \<lparr>Name = ''n1'', Labels = Some [(''topology.kubernetes.io/zone'', ''a'')]\<rparr>,
      \<lparr>Name = ''n2'', Labels = Some [(''topology.kubernetes.io/zone'', ''a'')]\<rparr>,
      \<lparr>Name = ''n3'', Labels = Some [(''topology.kubernetes.io/zone'', ''a'')]\<rparr>,
      \<lparr>Name = ''n4'', Labels = Some [(''topology.kubernetes.io/zone'', ''b'')]\<rparr>]
     3 [])) =
     [(''rack0'', Some [''n0'', ''n3'', ''n4'']), (''rack1'', Some [''n1'']), (''rack2'', Some [''n2''])] \<and>
   targetAZ [''topology.kubernetes.io'', ''failure-domain.beta.kubernetes.io'']
     \<lparr>Name = ''n3'', Labels = Some [(''topology.kubernetes.io/zone'', ''a'')]\<rparr> = ''a'' \<and>
   targetAZ [''topology.kubernetes.io'', ''failure-domain.beta.kubernetes.io'']
     \<lparr>Name = ''n4'', Labels = Some [(''topology.kubernetes.io/zone'', ''b'')]\<rparr> = ''b'' \<and>
   \<not> zoneConsistent [''topology.kubernetes.io'', ''failure-domain.beta.kubernetes.io'']
     [\<lparr>Name = ''n0'', Labels = Some
         [(''topology.kubernetes.io/zone'', ''a''), (''failure-domain.beta.kubernetes.io/zone'', ''b'')]\<rparr>,
      \<lparr>Name = ''n1'', Labels = Some [(''topology.kubernetes.io/zone'', ''a'')]\<rparr>,
      \<lparr>Name = ''n2'', Labels = Some [(''topology.kubernetes.io/zone'', ''a'')]\<rparr>,
      \<lparr>Name = ''n3'', Labels = Some [(''topology.kubernetes.io/zone'', ''a'')]\<rparr>,
      \<lparr>Name = ''n4'', Labels = Some [(''topology.kubernetes.io/zone'', ''b'')]\<rparr>]
     [(''rack0'', Some [''n0'', ''n3'', ''n4'']), (''rack1'', Some [''n1'']), (''rack2'', Some [''n2''])]"
  by code_simp

end
